theory Spec2Isabelle
  imports Main "HOL-Library.Char_ord" "HOL-Library.List_Lexorder" "HOL-Library.Product_Lexorder"
begin

section \<open>JavaScript values\<close>

text \<open>
  Every property the modelled code reads may be absent: a property that is \<open>undefined\<close> is
  \<open>None\<close>, a string is \<open>Some s\<close>. \<open>str\<close> is what a template literal or a string
  concatenation makes of such a value, \<open>truthy\<close> is what \<open>if (x)\<close>, \<open>!x\<close> and \<open>x || y\<close>
  test: \<open>undefined\<close> and the empty string are falsy.
\<close>

definition str :: "string option \<Rightarrow> string" where
  "str x = (case x of None \<Rightarrow> ''undefined'' | Some s \<Rightarrow> s)"

definition truthy :: "string option \<Rightarrow> bool" where
  "truthy x = (case x of None \<Rightarrow> False | Some s \<Rightarrow> s \<noteq> [])"

text \<open>
  A plain object (\<open>{}\<close>) that is used as a table from names to values is read through its
  prototype: a name that the table does not hold as a property of its own, and that is the
  name of a member of \<open>Object.prototype\<close>, reads as that member, a function (the object
  \<open>Object.prototype\<close> itself for \<open>__proto__\<close>). Such a value is truthy and has none of the
  properties the code goes on to read. \<open>read_property\<close> tells the three outcomes apart.
\<close>

definition Object_prototype :: "string list" where
  "Object_prototype =
     [''constructor'', ''__defineGetter__'', ''__defineSetter__'', ''hasOwnProperty'',
      ''__lookupGetter__'', ''__lookupSetter__'', ''isPrototypeOf'', ''propertyIsEnumerable'',
      ''toString'', ''valueOf'', ''__proto__'', ''toLocaleString'']"

datatype 'a member = Own 'a | Inherited | Missing

definition read_property :: "(string \<rightharpoonup> 'a) \<Rightarrow> string \<Rightarrow> 'a member" where
  "read_property obj k =
     (case obj k of
        Some v \<Rightarrow> Own v
      | None \<Rightarrow> if k \<in> set Object_prototype then Inherited else Missing)"

text \<open>
  A property of a component descriptor, which is parsed from YAML: the key is absent, or it
  is there with the value \<open>null\<close>, or it is there with a value. \<open>defined\<close> is what the code
  that reads the property sees of it when it only tests it for truthiness or hands it on:
  \<open>null\<close> and \<open>undefined\<close> are both \<open>None\<close>.
\<close>

datatype 'a property = Absent | Null | Value 'a

definition defined :: "'a property \<Rightarrow> 'a option" where
  "defined p = (case p of Value v \<Rightarrow> Some v | _ \<Rightarrow> None)"

text \<open>Everything the code throws, by throw site; \<open>TypeError\<close> is a read through \<open>undefined\<close>
  or a path function applied to a non-string.\<close>

datatype alias_conflict = References_itself | References_existing_page

datatype layout_missing = Missing_404 | Missing_default | Missing_layout_and_fallback

datatype error =
    InvalidPageID
  | StartPageMissing
  | SiteStartPageMissing
  | DuplicateVersion
  | DuplicateFile
  | AliasConflict alias_conflict
  | LayoutNotFound layout_missing
  | TypeError

section \<open>The identity tuple of a file\<close>

record src =
  component :: "string option"
  version :: "string option"
  module :: "string option"
  family :: "string option"
  relative :: "string option"
  basename :: "string option"
  extname :: "string option"
  stem :: "string option"
  mediaType :: "string option"
  moduleRootPath :: "string option"

definition empty_src :: src where
  "empty_src = \<lparr>component = None, version = None, module = None, family = None,
     relative = None, basename = None, extname = None, stem = None, mediaType = None,
     moduleRootPath = None\<rparr>"

section \<open>parse-page-id.js\<close>

text \<open>
  \<open>PAGE_ID_RX = /^(?:([^@]+)@)?(?:(?:([^:]+):)?(?:([^:]+))?:)?([^:]+?)(?:\.adoc)?$/\<close>

  The regular expression is run by a backtracking matcher. The model lists, for each
  quantified group, its alternatives in the order the matcher tries them (a greedy \<open>?\<close> tries
  the group before skipping it) and takes the first combination that reaches the end of the
  input.

  \<open>run_then c s\<close> is \<open>([^c]+)c\<close> at the head of \<open>s\<close>: the greedy run takes every character up to
  the first \<open>c\<close>; a shorter run is followed by a character other than \<open>c\<close>, so giving characters
  back never helps and the group has at most one way to match.
\<close>

definition run_then :: "char \<Rightarrow> string \<Rightarrow> (string \<times> string) option" where
  "run_then c s =
     (let a = takeWhile (\<lambda>x. x \<noteq> c) s; b = dropWhile (\<lambda>x. x \<noteq> c) s
      in if a \<noteq> [] \<and> b \<noteq> [] then Some (a, tl b) else None)"

text \<open>\<open>(?:([^@]+)@)?\<close>: the version and what follows it, then the skipped group.\<close>

definition version_alts :: "string \<Rightarrow> (string option \<times> string) list" where
  "version_alts s =
     (case run_then CHR ''@'' s of Some (v, r) \<Rightarrow> [(Some v, r)] | None \<Rightarrow> []) @ [(None, s)]"

text \<open>\<open>(?:([^:]+))?:\<close>: a module and its colon, or the colon alone.\<close>

definition module_alts :: "string \<Rightarrow> (string option \<times> string) list" where
  "module_alts r =
     (case run_then CHR '':'' r of Some (m, r') \<Rightarrow> [(Some m, r')] | None \<Rightarrow> []) @
     (case r of [] \<Rightarrow> [] | c # r' \<Rightarrow> if c = CHR '':'' then [(None, r')] else [])"

text \<open>\<open>(?:(?:([^:]+):)?(?:([^:]+))?:)?\<close>: with a component, without one, or skipped.\<close>

definition qualifier_alts :: "string \<Rightarrow> (string option \<times> string option \<times> string) list" where
  "qualifier_alts r =
     (case run_then CHR '':'' r of
        Some (c, r1) \<Rightarrow> map (\<lambda>(m, r2). (Some c, m, r2)) (module_alts r1)
      | None \<Rightarrow> []) @
     map (\<lambda>(m, r2). (None, m, r2)) (module_alts r) @
     [(None, None, r)]"

text \<open>
  \<open>([^:]+?)(?:\.adoc)?$\<close>: the lazy group starts with one character and grows by one
  character other than a colon at a time; at each length it stops as soon as the rest of the
  input is \<open>.adoc\<close> or empty. \<open>acc\<close> is what the group holds so far.
\<close>

fun page_lazy :: "string \<Rightarrow> string \<Rightarrow> string option" where
  "page_lazy acc [] = (if acc = [] then None else Some acc)"
| "page_lazy acc (c # cs) =
     (if acc \<noteq> [] \<and> c # cs = ''.adoc'' then Some acc
      else if c = CHR '':'' then None
      else page_lazy (acc @ [c]) cs)"

text \<open>The groups (version, component, module, page) of the first successful match.\<close>

definition PAGE_ID_RX ::
  "string \<Rightarrow> (string option \<times> string option \<times> string option \<times> string) option" where
  "PAGE_ID_RX s =
     (case concat (map (\<lambda>(v, r).
             concat (map (\<lambda>(c, m, r2).
               (case page_lazy [] r2 of None \<Rightarrow> [] | Some p \<Rightarrow> [(v, c, m, p)]))
             (qualifier_alts r)))
           (version_alts s)) of
        [] \<Rightarrow> None
      | x # _ \<Rightarrow> Some x)"

text \<open>\<open>parsePageId (spec, ctx = {})\<close>; the result carries the five properties the source
  returns, the others stay undefined.\<close>

definition parsePageId :: "string \<Rightarrow> src \<Rightarrow> src option" where
  "parsePageId spec ctx =
     (case PAGE_ID_RX spec of
        None \<Rightarrow> None
      | Some (v, c, m, p) \<Rightarrow>
          (if truthy c
           then Some (empty_src\<lparr>component := c, version := v,
                  module := (if \<not> truthy m then Some ''ROOT'' else m),
                  family := Some ''page'', relative := Some (p @ ''.adoc'')\<rparr>)
           else Some (empty_src\<lparr>component := component ctx,
                  version := (if \<not> truthy v then version ctx else v),
                  module := (if \<not> truthy m then module ctx else m),
                  family := Some ''page'', relative := Some (p @ ''.adoc'')\<rparr>)))"

section \<open>Node's \<open>path.posix\<close>\<close>

text \<open>
  The path functions belong to the runtime, not to the repository; they are modelled on
  the segments of a path. \<open>split_on\<close> is \<open>String.prototype.split\<close> with a one-character
  separator, \<open>join_with\<close> is \<open>Array.prototype.join\<close>.
\<close>

primrec split_on :: "char \<Rightarrow> string \<Rightarrow> string list" where
  "split_on c [] = [[]]"
| "split_on c (x # xs) =
     (case split_on c xs of
        [] \<Rightarrow> [[x]]
      | seg # segs \<Rightarrow> if x = c then [] # seg # segs else (x # seg) # segs)"

fun join_with :: "string \<Rightarrow> string list \<Rightarrow> string" where
  "join_with sep [] = []"
| "join_with sep [x] = x"
| "join_with sep (x # y # ys) = x @ sep @ join_with sep (y # ys)"

text \<open>One segment of \<open>normalizeString\<close>; the segments kept so far are held newest first.
  Empty segments and \<open>.\<close> are dropped, \<open>..\<close> removes the segment before it, or stays when
  there is none and the path is relative.\<close>

definition norm_step :: "bool \<Rightarrow> string list \<Rightarrow> string \<Rightarrow> string list" where
  "norm_step allowAboveRoot st seg =
     (if seg = [] \<or> seg = ''.'' then st
      else if seg = ''..'' then
        (case st of
           [] \<Rightarrow> if allowAboveRoot then [''..''] else []
         | t # rest \<Rightarrow> if t = ''..'' then (if allowAboveRoot then ''..'' # st else st) else rest)
      else seg # st)"

definition normalizeString :: "bool \<Rightarrow> string \<Rightarrow> string" where
  "normalizeString allowAboveRoot p =
     join_with ''/'' (rev (foldl (norm_step allowAboveRoot) [] (split_on CHR ''/'' p)))"

definition path_normalize :: "string \<Rightarrow> string" where
  "path_normalize p =
     (if p = [] then ''.''
      else let isAbsolute = (hd p = CHR ''/'');
               trailingSeparator = (last p = CHR ''/'');
               q = normalizeString (\<not> isAbsolute) p;
               q1 = (if q = [] \<and> \<not> isAbsolute then ''.'' else q);
               q2 = (if q1 \<noteq> [] \<and> trailingSeparator then q1 @ ''/'' else q1)
           in if isAbsolute then CHR ''/'' # q2 else q2)"

text \<open>\<open>path.join\<close> throws a TypeError on an argument that is not a string.\<close>

definition path_join :: "string option list \<Rightarrow> error + string" where
  "path_join args =
     (if None \<in> set args then Inl TypeError
      else let joined = join_with ''/'' (filter (\<lambda>a. a \<noteq> []) (map the args))
           in Inr (if joined = [] then ''.'' else path_normalize joined))"

text \<open>\<open>path.dirname\<close> scans from the end, never reading the first character: trailing
  slashes, then the last segment, then the slash before it, where the result ends.\<close>

definition path_dirname :: "string option \<Rightarrow> error + string" where
  "path_dirname po =
     (case po of
        None \<Rightarrow> Inl TypeError
      | Some p \<Rightarrow>
          (if p = [] then Inr ''.''
           else let hasRoot = (hd p = CHR ''/'');
                    r = dropWhile (\<lambda>x. x \<noteq> CHR ''/'')
                          (dropWhile (\<lambda>x. x = CHR ''/'') (rev (tl p)))
                in (case r of
                      [] \<Rightarrow> Inr (if hasRoot then ''/'' else ''.'')
                    | _ # rest \<Rightarrow>
                        if hasRoot \<and> rest = [] then Inr ''//''
                        else Inr (hd p # rev rest))))"

text \<open>\<open>path.basename\<close> and \<open>path.extname\<close> work on the last segment, trailing slashes
  ignored. \<open>extname\<close> is empty when the segment has no dot, when its last dot is its first
  character, and for \<open>..\<close>; \<open>basename (p, ext)\<close> removes \<open>ext\<close> from the end of the segment
  unless the segment is \<open>ext\<close> itself. The code calls \<open>basename (p, ext)\<close> with the
  extension of \<open>p\<close> only, and that is the use the model covers.\<close>

definition last_segment :: "string \<Rightarrow> string" where
  "last_segment p =
     rev (takeWhile (\<lambda>x. x \<noteq> CHR ''/'') (dropWhile (\<lambda>x. x = CHR ''/'') (rev p)))"

definition path_basename :: "string \<Rightarrow> string" where
  "path_basename p = last_segment p"

definition path_extname :: "string \<Rightarrow> string" where
  "path_extname p =
     (let seg = last_segment p; r = rev seg
      in if CHR ''.'' \<notin> set seg then []
         else if tl (dropWhile (\<lambda>x. x \<noteq> CHR ''.'') r) = [] then []
         else if seg = ''..'' then []
         else CHR ''.'' # rev (takeWhile (\<lambda>x. x \<noteq> CHR ''.'') r))"

definition path_basename_ext :: "string \<Rightarrow> string \<Rightarrow> string" where
  "path_basename_ext p ext =
     (if ext \<noteq> [] \<and> length ext \<le> length p then
        (if ext = p then []
         else let seg = last_segment p; n = length seg - length ext
              in if length ext < length seg \<and> drop n seg = ext then take n seg else seg)
      else last_segment p)"

text \<open>\<open>path.relative\<close> resolves both paths against the working directory of the process
  (\<open>cwd\<close>, an absolute path), drops the segments they share, climbs out of what is left of
  \<open>from\<close> and descends into what is left of \<open>to\<close>.\<close>

definition resolve_segments :: "string \<Rightarrow> string \<Rightarrow> string list" where
  "resolve_segments cwd p =
     rev (foldl (norm_step False) []
       ((if p \<noteq> [] \<and> hd p = CHR ''/'' then [] else split_on CHR ''/'' cwd) @
        split_on CHR ''/'' p))"

fun drop_common :: "string list \<Rightarrow> string list \<Rightarrow> string list \<times> string list" where
  "drop_common (x # xs) (y # ys) = (if x = y then drop_common xs ys else (x # xs, y # ys))"
| "drop_common xs ys = (xs, ys)"

definition path_relative :: "string \<Rightarrow> string \<Rightarrow> string \<Rightarrow> string" where
  "path_relative cwd from to =
     (if from = to then []
      else case drop_common (resolve_segments cwd from) (resolve_segments cwd to) of
             (f, t) \<Rightarrow> join_with ''/'' (replicate (length f) ''..'' @ t))"

section \<open>content-catalog.js: output path and publish URL\<close>

record out =
  out_dirname :: string
  out_basename :: string
  out_path :: string
  out_moduleRootPath :: string
  out_rootPath :: string

record pub =
  url :: string
  pub_moduleRootPath :: "string option"
  pub_rootPath :: "string option"

text \<open>\<open>expandPageSrc (src, family = 'page')\<close>. Both callers hand it a src whose relative
  path is a string.\<close>

definition expandPageSrc :: "src \<Rightarrow> string \<Rightarrow> src" where
  "expandPageSrc s fam =
     (let rel = str (relative s); ext = path_extname rel
      in s\<lparr>family := Some fam,
           basename := Some (path_basename rel),
           extname := Some ext,
           stem := Some (path_basename_ext rel ext),
           mediaType := Some ''text/asciidoc''\<rparr>)"

definition or_dot :: "string \<Rightarrow> string" where
  "or_dot p = (if p = [] then ''.'' else p)"

definition computeOut :: "string \<Rightarrow> src \<Rightarrow> string option \<Rightarrow> string \<Rightarrow> error + out" where
  "computeOut cwd s fam htmlUrlExtensionStyle =
     (let component' = component s;
          version' = (if version s = Some ''master'' then Some [] else version s);
          module' = (if module s = Some ''ROOT'' then Some [] else module s);
          stem' = stem s;
          indexify = (fam = Some ''page'' \<and> stem' \<noteq> Some ''index'' \<and>
                      htmlUrlExtensionStyle = ''indexify'');
          basename' = (if indexify then Some ''index.html''
                       else if mediaType s = Some ''text/asciidoc''
                       then Some (str stem' @ ''.html'') else basename s);
          indexifyPathSegment = (if indexify then stem' else Some []);
          familyPathSegment = (if fam = Some ''image'' then ''_images''
                               else if fam = Some ''attachment'' then ''_attachments'' else [])
      in case path_join [component', version', module'] of
           Inl e \<Rightarrow> Inl e
         | Inr modulePath \<Rightarrow>
        (case path_dirname (relative s) of
           Inl e \<Rightarrow> Inl e
         | Inr reldir \<Rightarrow>
        (case path_join [Some modulePath, Some familyPathSegment, Some reldir,
                         indexifyPathSegment] of
           Inl e \<Rightarrow> Inl e
         | Inr dirname \<Rightarrow>
        (case path_join [Some dirname, basename'] of
           Inl e \<Rightarrow> Inl e
         | Inr path' \<Rightarrow>
             Inr \<lparr>out_dirname = dirname, out_basename = str basename', out_path = path',
                  out_moduleRootPath = or_dot (path_relative cwd dirname modulePath),
                  out_rootPath = or_dot (path_relative cwd dirname [])\<rparr>))))"

text \<open>\<open>Array.prototype.join\<close> writes an undefined element as the empty string.\<close>

definition elem_str :: "string option \<Rightarrow> string" where
  "elem_str x = (case x of None \<Rightarrow> [] | Some s \<Rightarrow> s)"

definition computePub ::
  "src \<Rightarrow> out option \<Rightarrow> string option \<Rightarrow> string \<Rightarrow> error + pub" where
  "computePub s ou fam htmlUrlExtensionStyle =
     (let carry = (\<lambda>u mrp. case ou of
                     None \<Rightarrow> \<lparr>url = u, pub_moduleRootPath = mrp, pub_rootPath = None\<rparr>
                   | Some ot \<Rightarrow> \<lparr>url = u, pub_moduleRootPath = Some (out_moduleRootPath ot),
                                 pub_rootPath = Some (out_rootPath ot)\<rparr>)
      in if fam = Some ''navigation'' then
           (let urlSegments = [component s] @
                  (if version s \<noteq> Some ''master'' then [version s] else []) @
                  (if truthy (module s) \<and> module s \<noteq> Some ''ROOT'' then [module s] else [])
            in Inr (carry (''/'' @ join_with ''/'' (map elem_str urlSegments) @ ''/'')
                          (Some ''.'')))
         else if fam = Some ''page'' then
           (case ou of
              None \<Rightarrow> Inl TypeError
            | Some ot \<Rightarrow>
                (let urlSegments = split_on CHR ''/'' (out_path ot);
                     lastUrlSegmentIdx = length urlSegments - 1;
                     lastUrlSegment = urlSegments ! lastUrlSegmentIdx;
                     urlSegments' =
                       (if htmlUrlExtensionStyle = ''drop'' then
                          urlSegments[lastUrlSegmentIdx :=
                            (if lastUrlSegment = ''index.html'' then []
                             else take (length lastUrlSegment - 5) lastUrlSegment)]
                        else if htmlUrlExtensionStyle = ''indexify'' then
                          urlSegments[lastUrlSegmentIdx := []]
                        else urlSegments)
                 in Inr (carry (''/'' @ join_with ''/'' urlSegments') None)))
         else
           (case ou of
              None \<Rightarrow> Inl TypeError
            | Some ot \<Rightarrow> Inr (carry (''/'' @ out_path ot) None)))"

section \<open>content-catalog.js: the catalog\<close>

text \<open>
  A file is held by value; \<open>rel\<close> is the file an alias points to. No operation of the catalog
  changes a file once it is stored, so the value stored under \<open>rel\<close> stays the value of its
  target, and \<open>===\<close> between two files is equality of values.
\<close>

datatype vfile = File (path: "string option") (file_mediaType: "string option") (src: src)
  (out: "out option") (pub: "pub option") (rel: "vfile option") (nav: "nat option")

record version_entry =
  ve_title :: "string option"
  ve_version :: string
  ve_url :: string

record component_entry =
  comp_name :: string
  comp_title :: "string option"
  comp_url :: string
  versions :: "version_entry list"

text \<open>The getter \<open>latestVersion\<close> returns \<open>this.versions[0]\<close>.\<close>

definition latestVersion :: "component_entry \<Rightarrow> version_entry option" where
  "latestVersion cpt = (case versions cpt of [] \<Rightarrow> None | v # _ \<Rightarrow> Some v)"

record playbook =
  urls_htmlExtensionStyle :: "string option"
  site_startPage :: "string option"

text \<open>
  The two tables of the catalog are plain objects. The table of the files lists its keys in
  the order they were added (no key is an array index), which is the order \<open>findBy\<close> and
  \<open>getFiles\<close> go through them: it is kept as the list of its entries, and \<open>files\<close> is the
  lookup by key. Every key begins with a dollar sign, so no lookup reaches the prototype.
\<close>

record catalog =
  components :: "string \<rightharpoonup> component_entry"
  file_table :: "(string \<times> vfile) list"
  htmlUrlExtensionStyle :: string

definition files :: "catalog \<Rightarrow> string \<rightharpoonup> vfile" where
  "files c = map_of (file_table c)"

definition getFiles :: "catalog \<Rightarrow> vfile list" where
  "getFiles c = map snd (file_table c)"

definition new_ContentCatalog :: "playbook \<Rightarrow> catalog" where
  "new_ContentCatalog pb =
     \<lparr>components = Map.empty, file_table = [],
      htmlUrlExtensionStyle =
        (case urls_htmlExtensionStyle pb of None \<Rightarrow> ''default'' | Some st \<Rightarrow> st)\<rparr>"

definition generateId :: "src \<Rightarrow> string" where
  "generateId s =
     ''$'' @ str (family s) @ ''/'' @ str (version s) @ ''@'' @ str (component s) @ '':'' @
     str (module s) @ '':'' @ str (relative s)"

definition getById :: "catalog \<Rightarrow> src \<Rightarrow> vfile option" where
  "getById c s = files c (generateId s)"

text \<open>A property name that is \<open>undefined\<close> reads the property called \<open>undefined\<close>. The
  table of the components is a plain object, so \<open>getComponent\<close> returns a member of
  \<open>Object.prototype\<close> for a name such as \<open>toString\<close> that is not the name of a component.\<close>

definition getComponent :: "catalog \<Rightarrow> string option \<Rightarrow> component_entry member" where
  "getComponent c nm = read_property (components c) (str nm)"

text \<open>\<open>~s.indexOf (pat)\<close>: \<open>pat\<close> occurs in \<open>s\<close>.\<close>

fun has_substr :: "string \<Rightarrow> string \<Rightarrow> bool" where
  "has_substr pat [] = (pat = [])"
| "has_substr pat (x # xs) = (take (length pat) (x # xs) = pat \<or> has_substr pat xs)"

text \<open>\<open>family === 'alias' ? file.rel.src.family : family\<close>; an alias without \<open>rel\<close> is a
  TypeError.\<close>

definition actingFamily :: "vfile \<Rightarrow> error + string option" where
  "actingFamily f =
     (if family (src f) = Some ''alias''
      then (case rel f of None \<Rightarrow> Inl TypeError | Some r \<Rightarrow> Inr (family (src r)))
      else Inr (family (src f)))"

definition addFile :: "string \<Rightarrow> catalog \<Rightarrow> vfile \<Rightarrow> error + catalog" where
  "addFile cwd c f =
     (let id = generateId (src f)
      in if files c id \<noteq> None then Inl DuplicateFile
         else
           (case actingFamily f of
              Inl e \<Rightarrow> Inl e
            | Inr af \<Rightarrow>
           (case (if out f \<noteq> None then Inr (True, out f)
                  else if (af = Some ''page'' \<or> af = Some ''image'' \<or>
                           af = Some ''attachment'') \<and>
                          \<not> has_substr ''/_'' (''/'' @ str (relative (src f)))
                  then (case computeOut cwd (src f) af (htmlUrlExtensionStyle c) of
                          Inl e \<Rightarrow> Inl e
                        | Inr ot \<Rightarrow> Inr (True, Some ot))
                  else Inr (False, None)) of
              Inl e \<Rightarrow> Inl e
            | Inr (publishable, out') \<Rightarrow>
           (case (if pub f = None \<and> (publishable \<or> af = Some ''navigation'')
                  then (case computePub (src f) out' af (htmlUrlExtensionStyle c) of
                          Inl e \<Rightarrow> Inl e
                        | Inr pb \<Rightarrow> Inr (Some pb))
                  else Inr (pub f)) of
              Inl e \<Rightarrow> Inl e
            | Inr pub' \<Rightarrow>
                Inr (c\<lparr>file_table := file_table c @
                      [(id, File (path f) (file_mediaType f) (src f) out' pub' (rel f)
                              (nav f))]\<rparr>)))))"

section \<open>resolve-page.js\<close>

definition resolvePage :: "catalog \<Rightarrow> string \<Rightarrow> src \<Rightarrow> error + vfile option" where
  "resolvePage c spec ctx =
     (case parsePageId spec ctx of
        None \<Rightarrow> Inl InvalidPageID
      | Some pid \<Rightarrow>
          (if \<not> truthy (version pid) then
             (case getComponent c (component pid) of
                Missing \<Rightarrow> Inr None
              | Inherited \<Rightarrow> Inl TypeError
              | Own cpt \<Rightarrow>
                  (case latestVersion cpt of
                     None \<Rightarrow> Inl TypeError
                   | Some lv \<Rightarrow> Inr (getById c (pid\<lparr>version := Some (ve_version lv)\<rparr>))))
           else Inr (getById c pid)))"

section \<open>content-catalog.js: component versions\<close>

text \<open>
  \<open>versionCompare\<close> (\<open>util/version-compare-desc\<close>) is not among the sources. The functions
  that call it take it as the parameter \<open>vc\<close>; \<open>vc a b\<close> is negative when \<open>a\<close> sorts before
  \<open>b\<close>, that is when \<open>a\<close> is the newer version.

  The callback of \<open>findIndex\<close> throws on a candidate with the version being added, and
  answers whether the candidate is older than it; \<open>None\<close> is the index \<open>-1\<close>.
\<close>

fun findInsertIdx ::
  "(string \<Rightarrow> string \<Rightarrow> int) \<Rightarrow> string \<Rightarrow> version_entry list \<Rightarrow> error + nat option" where
  "findInsertIdx vc v [] = Inr None"
| "findInsertIdx vc v (c # cs) =
     (if ve_version c = v then Inl DuplicateVersion
      else if vc (ve_version c) v > 0 then Inr (Some 0)
      else (case findInsertIdx vc v cs of
              Inl e \<Rightarrow> Inl e
            | Inr None \<Rightarrow> Inr None
            | Inr (Some i) \<Rightarrow> Inr (Some (Suc i))))"

text \<open>The first half of \<open>addComponentVersion\<close>: the URL of the start page, resolved from
  the spec or from \<open>index.adoc\<close>, or made up for the missing index page.\<close>

definition startPageUrl ::
  "string \<Rightarrow> catalog \<Rightarrow> string \<Rightarrow> string \<Rightarrow> string option \<Rightarrow> error + string" where
  "startPageUrl cwd c name' version' startPageSpec =
     (let ctx = empty_src\<lparr>component := Some name', version := Some version',
                          module := Some ''ROOT''\<rparr>
      in case resolvePage c (if truthy startPageSpec then str startPageSpec else ''index.adoc'')
                ctx of
           Inl e \<Rightarrow> Inl e
         | Inr (Some startPage) \<Rightarrow>
             (case pub startPage of None \<Rightarrow> Inl TypeError | Some pb \<Rightarrow> Inr (url pb))
         | Inr None \<Rightarrow>
             if truthy startPageSpec then Inl StartPageMissing
             else
               (let startPageSrc =
                      expandPageSrc (ctx\<lparr>relative := Some ''index.adoc''\<rparr>) ''page''
                in case computeOut cwd startPageSrc (family startPageSrc)
                          (htmlUrlExtensionStyle c) of
                     Inl e \<Rightarrow> Inl e
                   | Inr startPageOut \<Rightarrow>
                       (case computePub startPageSrc (Some startPageOut)
                               (family startPageSrc) (htmlUrlExtensionStyle c) of
                          Inl e \<Rightarrow> Inl e
                        | Inr pb \<Rightarrow> Inr (url pb))))"

definition addComponentVersion ::
  "(string \<Rightarrow> string \<Rightarrow> int) \<Rightarrow> string \<Rightarrow> catalog \<Rightarrow> string \<Rightarrow> string \<Rightarrow> string option \<Rightarrow>
   string option \<Rightarrow> error + catalog" where
  "addComponentVersion vc cwd c name' version' title startPageSpec =
     (case startPageUrl cwd c name' version' startPageSpec of
        Inl e \<Rightarrow> Inl e
      | Inr url' \<Rightarrow>
          (let versionEntry = \<lparr>ve_title = title, ve_version = version', ve_url = url'\<rparr>
           in case read_property (components c) name' of
                Own cpt \<Rightarrow>
                  (case findInsertIdx vc version' (versions cpt) of
                     Inl e \<Rightarrow> Inl e
                   | Inr None \<Rightarrow>
                       Inr (c\<lparr>components := (components c)(name' \<mapsto>
                             cpt\<lparr>versions := versions cpt @ [versionEntry]\<rparr>)\<rparr>)
                   | Inr (Some insertIdx) \<Rightarrow>
                       (let spliced = take insertIdx (versions cpt) @ [versionEntry] @
                                      drop insertIdx (versions cpt)
                        in if insertIdx = 0
                           then Inr (c\<lparr>components := (components c)(name' \<mapsto>
                                  cpt\<lparr>versions := spliced, comp_title := title,
                                       comp_url := url'\<rparr>)\<rparr>)
                           else Inr (c\<lparr>components := (components c)(name' \<mapsto>
                                  cpt\<lparr>versions := spliced\<rparr>)\<rparr>)))
              | Inherited \<Rightarrow> Inl TypeError
              | Missing \<Rightarrow>
                  Inr (c\<lparr>components := (components c)(name' \<mapsto>
                        \<lparr>comp_name = name', comp_title = title, comp_url = url',
                         versions = [versionEntry]\<rparr>)\<rparr>)))"

text \<open>A sequence of calls (name, version, title, start page spec), which ends at the first
  call that throws.\<close>

fun addComponentVersions ::
  "(string \<Rightarrow> string \<Rightarrow> int) \<Rightarrow> string \<Rightarrow> catalog \<Rightarrow>
   (string \<times> string \<times> string option \<times> string option) list \<Rightarrow> error + catalog" where
  "addComponentVersions vc cwd c [] = Inr c"
| "addComponentVersions vc cwd c ((name', version', title, startPageSpec) # calls) =
     (case addComponentVersion vc cwd c name' version' title startPageSpec of
        Inl e \<Rightarrow> Inl e
      | Inr c' \<Rightarrow> addComponentVersions vc cwd c' calls)"

section \<open>content-catalog.js: the site start page and page aliases\<close>

text \<open>\<open>START_PAGE_ID\<close> (\<open>constants.js\<close>) is not among the sources; it is the parameter
  \<open>start_page_id\<close>.\<close>

definition getSiteStartPage :: "src \<Rightarrow> catalog \<Rightarrow> vfile option" where
  "getSiteStartPage start_page_id c =
     (case (case getById c start_page_id of
              Some pg \<Rightarrow> Some pg
            | None \<Rightarrow> getById c (start_page_id\<lparr>family := Some ''alias''\<rparr>)) of
        None \<Rightarrow> None
      | Some pg \<Rightarrow> if family (src pg) = Some ''alias'' then rel pg else Some pg)"

text \<open>The result is the catalog and what the call returns: \<open>None\<close> is \<open>undefined\<close>, the
  file is the alias as \<open>addFile\<close> left it.\<close>

definition registerPageAlias ::
  "string \<Rightarrow> catalog \<Rightarrow> string \<Rightarrow> vfile \<Rightarrow> error + (catalog \<times> vfile option)" where
  "registerPageAlias cwd c aliasSpec targetPage =
     (case parsePageId aliasSpec (src targetPage) of
        None \<Rightarrow> Inr (c, None)
      | Some s \<Rightarrow>
     (case getComponent c (component s) of
        Missing \<Rightarrow> Inr (c, None)
      | Inherited \<Rightarrow> Inl TypeError
      | Own cpt \<Rightarrow>
     (case (if truthy (version s)
            then (if find (\<lambda>candidate. Some (ve_version candidate) = version s)
                       (versions cpt) = None
                  then Inr None else Inr (Some s))
            else (case latestVersion cpt of
                    None \<Rightarrow> Inl TypeError
                  | Some lv \<Rightarrow> Inr (Some (s\<lparr>version := Some (ve_version lv)\<rparr>)))) of
        Inl e \<Rightarrow> Inl e
      | Inr None \<Rightarrow> Inr (c, None)
      | Inr (Some s') \<Rightarrow>
     (case getById c s' of
        Some existingPage \<Rightarrow>
          Inl (AliasConflict (if existingPage = targetPage then References_itself
                              else References_existing_page))
      | None \<Rightarrow>
          (let s'' = expandPageSrc s' ''alias'';
               f = File (path targetPage) (mediaType s'') s'' None None (Some targetPage) None
           in case addFile cwd c f of
                Inl e \<Rightarrow> Inl e
              | Inr c' \<Rightarrow> Inr (c', files c' (generateId s'')))))))"

section \<open>classify-content.js\<close>

text \<open>One entry of the aggregate: the component descriptor and the files of one
  component version. \<open>loadComponentDescriptor\<close> refuses a descriptor whose name or version
  is missing or \<open>null\<close> and makes the version a string; the title, the start page and the
  nav list are as the YAML file has them.\<close>

record component_version =
  cv_name :: string
  cv_version :: string
  cv_title :: "string property"
  cv_start_page :: "string property"
  cv_nav :: "string list property"
  cv_files :: "vfile list"

fun findIndex :: "('a \<Rightarrow> bool) \<Rightarrow> 'a list \<Rightarrow> nat option" where
  "findIndex P [] = None"
| "findIndex P (x # xs) =
     (if P x then Some 0 else map_option Suc (findIndex P xs))"

definition getNavInfo :: "string \<Rightarrow> string list \<Rightarrow> nat option" where
  "getNavInfo filepath nv = findIndex (\<lambda>candidate. candidate = filepath) nv"

definition calculateRootPath :: "nat \<Rightarrow> string" where
  "calculateRootPath depth =
     (if depth \<noteq> 0 then join_with ''/'' (replicate depth ''..'') else ''.'')"

text \<open>\<open>pathSegments[k]\<close> is undefined past the end of the array.\<close>

definition segment :: "string list \<Rightarrow> nat \<Rightarrow> string option" where
  "segment segs k = (if k < length segs then Some (segs ! k) else None)"

definition set_src :: "vfile \<Rightarrow> (src \<Rightarrow> src) \<Rightarrow> vfile" where
  "set_src f upd = File (path f) (file_mediaType f) (upd (src f)) (out f) (pub f) (rel f) (nav f)"

text \<open>\<open>allocateSrc\<close> returns the file with its \<open>src\<close> filled in, or \<open>None\<close> where the source
  returns undefined and the file is left out of the catalog.\<close>

definition allocateSrc ::
  "vfile \<Rightarrow> string \<Rightarrow> string \<Rightarrow> string list option \<Rightarrow> error + vfile option" where
  "allocateSrc f component' version' nav' =
     (case path f of
        None \<Rightarrow> Inl TypeError
      | Some filepath \<Rightarrow>
          (let pathSegments = split_on CHR ''/'' filepath;
               navInfo = (case nav' of None \<Rightarrow> None | Some nv \<Rightarrow> getNavInfo filepath nv);
               own = (\<lambda>s. s\<lparr>component := Some component', version := Some version'\<rparr>);
               in_module = (\<lambda>s. s\<lparr>module := segment pathSegments 1,
                   moduleRootPath := Some (calculateRootPath (length pathSegments - 3))\<rparr>);
               below = (\<lambda>n. Some (join_with ''/'' (drop n pathSegments)))
           in case navInfo of
                Some index \<Rightarrow>
                  (let f' = File (path f) (file_mediaType f) (src f) (out f) (pub f) (rel f)
                              (Some index)
                   in if segment pathSegments 0 = Some ''modules'' \<and> length pathSegments > 2
                      then Inr (Some (set_src f' (\<lambda>s. own (in_module
                             (s\<lparr>family := Some ''navigation'', relative := below 2\<rparr>)))))
                      else Inr (Some (set_src f' (\<lambda>s. own
                             (s\<lparr>family := Some ''navigation'', relative := Some filepath\<rparr>)))))
              | None \<Rightarrow>
                  if segment pathSegments 0 = Some ''modules'' then
                    (if segment pathSegments 2 = Some ''pages'' then
                       (if segment pathSegments 3 = Some ''_partials'' then
                          Inr (Some (set_src f (\<lambda>s. own (in_module
                            (s\<lparr>family := Some ''partial'', relative := below 4\<rparr>)))))
                        else if mediaType (src f) = Some ''text/asciidoc'' then
                          Inr (Some (set_src f (\<lambda>s. own (in_module
                            (s\<lparr>family := Some ''page'', relative := below 3\<rparr>)))))
                        else Inr None)
                     else if segment pathSegments 2 = Some ''assets'' then
                       (if segment pathSegments 3 = Some ''images'' then
                          Inr (Some (set_src f (\<lambda>s. own (in_module
                            (s\<lparr>family := Some ''image'', relative := below 4\<rparr>)))))
                        else if segment pathSegments 3 = Some ''attachments'' then
                          Inr (Some (set_src f (\<lambda>s. own (in_module
                            (s\<lparr>family := Some ''attachment'', relative := below 4\<rparr>)))))
                        else Inr None)
                     else if segment pathSegments 2 = Some ''examples'' then
                       Inr (Some (set_src f (\<lambda>s. own (in_module
                         (s\<lparr>family := Some ''example'', relative := below 3\<rparr>)))))
                     else Inr None)
                  else Inr None))"

definition registerSiteStartPage ::
  "string \<Rightarrow> src \<Rightarrow> playbook \<Rightarrow> catalog \<Rightarrow> error + catalog" where
  "registerSiteStartPage cwd start_page_id pb c =
     (let pageSpec = site_startPage pb
      in if \<not> truthy pageSpec then Inr c
         else case resolvePage c (str pageSpec) empty_src of
                Inl e \<Rightarrow> Inl e
              | Inr None \<Rightarrow> Inl SiteStartPageMissing
              | Inr (Some rel') \<Rightarrow>
                  addFile cwd c
                    (File None None
                       (start_page_id\<lparr>family := Some ''alias'', basename := Some ''index.adoc'',
                          stem := Some ''index'', mediaType := Some ''text/asciidoc''\<rparr>)
                       None None (Some rel') None))"

text \<open>\<open>files.forEach ((file) => allocateSrc (...) && catalog.addFile (file))\<close>\<close>

fun addFiles ::
  "string \<Rightarrow> catalog \<Rightarrow> string \<Rightarrow> string \<Rightarrow> string list option \<Rightarrow> vfile list \<Rightarrow>
   error + catalog" where
  "addFiles cwd c component' version' nav' [] = Inr c"
| "addFiles cwd c component' version' nav' (f # fs) =
     (case allocateSrc f component' version' nav' of
        Inl e \<Rightarrow> Inl e
      | Inr None \<Rightarrow> addFiles cwd c component' version' nav' fs
      | Inr (Some f') \<Rightarrow>
          (case addFile cwd c f' of
             Inl e \<Rightarrow> Inl e
           | Inr c' \<Rightarrow> addFiles cwd c' component' version' nav' fs))"

text \<open>The reducer of \<open>classifyContent\<close> over the aggregate.\<close>

fun classifyBundles ::
  "(string \<Rightarrow> string \<Rightarrow> int) \<Rightarrow> string \<Rightarrow> catalog \<Rightarrow> component_version list \<Rightarrow> error + catalog" where
  "classifyBundles vc cwd c [] = Inr c"
| "classifyBundles vc cwd c (b # bs) =
     (case addFiles cwd c (cv_name b) (cv_version b) (defined (cv_nav b)) (cv_files b) of
        Inl e \<Rightarrow> Inl e
      | Inr c' \<Rightarrow>
          (case addComponentVersion vc cwd c' (cv_name b) (cv_version b)
                  (defined (cv_title b)) (defined (cv_start_page b)) of
             Inl e \<Rightarrow> Inl e
           | Inr c'' \<Rightarrow> classifyBundles vc cwd c'' bs))"

definition classifyContent ::
  "(string \<Rightarrow> string \<Rightarrow> int) \<Rightarrow> string \<Rightarrow> src \<Rightarrow> playbook \<Rightarrow> component_version list \<Rightarrow> error + catalog"
  where
  "classifyContent vc cwd start_page_id pb aggregate =
     (case classifyBundles vc cwd (new_ContentCatalog pb) aggregate of
        Inl e \<Rightarrow> Inl e
      | Inr c \<Rightarrow> registerSiteStartPage cwd start_page_id pb c)"

section \<open>aggregate-content.js: \<open>buildAggregate\<close>\<close>








section \<open>create-page-composer.js\<close>

text \<open>
  \<open>composePage\<close> is made by \<open>createPageComposerInternal (site, env, layouts)\<close>. \<open>site\<close> is
  the model that \<open>buildSiteUiModel\<close> has built once, before any page is composed; of it the
  composer reads the URL of the site, the URL of the home page, the URL of the UI and the
  default layout, which \<open>buildSiteUiModel\<close> always sets to a string. Its title, components
  and keys, the environment and the version of Antora are handed to the template unread
  and are left out of the model.
\<close>

record site_model =
  site_url :: "string option"
  site_homeUrl :: "string option"
  site_ui_url :: string
  site_ui_defaultLayout :: string

text \<open>
  What \<open>composePage\<close> reads of the file beside what the catalog keeps of it: its contents,
  its title, the title and the attributes of its AsciiDoc document (no attribute when the
  file has no \<open>asciidoc\<close> property or the document has none), and the edit URL of its src.
\<close>

record document =
  doc_contents :: "string option"
  doc_title :: "string option"
  doc_doctitle :: "string option"
  doc_attributes :: "string \<rightharpoonup> string"
  doc_editUrl :: "string option"

text \<open>
  An item of a navigation tree as the navigation builder makes it: its content, the link
  parsed from the content (URL, kind of the URL, fragment), and the items below it. An
  item has a kind and a fragment only with a URL. The menus of the navigation catalog are
  kept under \<open>component:version\<close>, a key that is never the name of a member of
  \<open>Object.prototype\<close>.
\<close>

datatype nav_item = NavItem (nav_content: "string option")
  (nav_link: "(string \<times> string \<times> string option) option") (nav_items: "nav_item list")

definition getMenu ::
  "(string \<rightharpoonup> nav_item list) \<Rightarrow> string option \<Rightarrow> string option \<Rightarrow> nav_item list option"
  where
  "getMenu menus component' version' = menus (str component' @ '':'' @ str version')"

fun findBreadcrumbPath :: "string \<Rightarrow> nav_item \<Rightarrow> nav_item list \<Rightarrow> nav_item list option"
  and findBreadcrumbPath_items ::
    "string \<Rightarrow> nav_item list \<Rightarrow> nav_item list \<Rightarrow> nav_item list option" where
  "findBreadcrumbPath matchUrl (NavItem content link items) currentPath =
     (if (case link of
            None \<Rightarrow> False
          | Some (url', urlType, hash) \<Rightarrow>
              urlType = ''internal'' \<and>
              (if truthy hash then take (length url' - length (str hash)) url' else url') =
                matchUrl)
      then Some (currentPath @ [NavItem content link items])
      else findBreadcrumbPath_items matchUrl items
             (if truthy content then currentPath @ [NavItem content link items]
              else currentPath))"
| "findBreadcrumbPath_items matchUrl [] currentPath = None"
| "findBreadcrumbPath_items matchUrl (item # items) currentPath =
     (case findBreadcrumbPath matchUrl item currentPath of
        Some matchingPath \<Rightarrow> Some matchingPath
      | None \<Rightarrow> findBreadcrumbPath_items matchUrl items currentPath)"

text \<open>A breadcrumb is an item of the menu, or the one made up from the title and the URL
  of the page.\<close>

datatype crumb = Crumb nav_item | Discrete string string

fun getBreadcrumbs :: "string \<Rightarrow> string option \<Rightarrow> nav_item list \<Rightarrow> crumb list" where
  "getBreadcrumbs pageUrl pageTitle [] =
     (if truthy pageTitle then [Discrete (str pageTitle) pageUrl] else [])"
| "getBreadcrumbs pageUrl pageTitle (tree # menu) =
     (case findBreadcrumbPath pageUrl tree [] of
        Some breadcrumbs \<Rightarrow> map Crumb breadcrumbs
      | None \<Rightarrow> getBreadcrumbs pageUrl pageTitle menu)"

definition getComponentVersion :: "version_entry list \<Rightarrow> string option \<Rightarrow> version_entry option"
  where
  "getComponentVersion vs currentVersion =
     find (\<lambda>candidate. Some (ve_version candidate) = currentVersion) vs"

text \<open>
  \<open>findBy\<close> with a filter of src properties: \<open>_.filter\<close> keeps, in the order of the table,
  the files whose src has each property of the filter with the same value. The filter is
  the list of its properties, each the selector of the property and the value asked for.
  A property that the filter has with the value undefined is matched by a src that has the
  property with the value undefined; the model does not tell such a src from one that
  lacks the property.
\<close>

definition findBy :: "catalog \<Rightarrow> ((src \<Rightarrow> string option) \<times> string option) list \<Rightarrow> vfile list"
  where
  "findBy c srcFilter =
     filter (\<lambda>f. list_all (\<lambda>(property, v). property (src f) = v) srcFilter) (getFiles c)"

text \<open>
  An entry of the list of page versions: the version and the URL of the page in that
  version, or of the start page of the version when the page is missing there. The table
  \<open>pageVersions\<close> is a plain object filled under the versions of the pages found: asked
  for the version of the component, \<open>in\<close> and the read that follows reach the prototype.
  A version that is the name of a member of \<open>Object.prototype\<close> and not the version of a
  page found gives that member, which has neither a version nor a URL (\<open>Other_value\<close>).
  Writing under the key \<open>__proto__\<close> makes the entry written the prototype of the table:
  it is what the key \<open>__proto__\<close> reads afterwards, and its two properties, the strings
  \<open>version\<close> and \<open>url\<close>, are then found in the table under these two names.
\<close>

datatype page_version =
    PageVersion (pv_version: "string option") (pv_url: string) (pv_missing: bool)
  | Other_value

definition version_of :: "page_version \<Rightarrow> string option" where
  "version_of e = (case e of PageVersion v u m \<Rightarrow> v | Other_value \<Rightarrow> None)"

definition url_of :: "page_version \<Rightarrow> string option" where
  "url_of e = (case e of PageVersion v u m \<Rightarrow> Some u | Other_value \<Rightarrow> None)"

text \<open>
  \<open>Array.prototype.sort\<close> with a comparison function: the elements are put in ascending
  order of the comparison, and elements that compare as equal keep their order (as Node
  does for an array of at most ten elements, and for every array from version 11 on). No
  property below depends on the order of the result.
\<close>

fun insert_by :: "('a \<Rightarrow> 'a \<Rightarrow> int) \<Rightarrow> 'a \<Rightarrow> 'a list \<Rightarrow> 'a list" where
  "insert_by cmp x [] = [x]"
| "insert_by cmp x (y # ys) = (if cmp x y < 0 then x # y # ys else y # insert_by cmp x ys)"

definition sort_by :: "('a \<Rightarrow> 'a \<Rightarrow> int) \<Rightarrow> 'a list \<Rightarrow> 'a list" where
  "sort_by cmp xs = foldl (\<lambda>sorted x. insert_by cmp x sorted) [] xs"

text \<open>
  \<open>getPageVersions (pageSrc, component, contentCatalog, { sparse: true })\<close>, which its one
  caller calls for a component of more than one version. The comparison function of the
  sort is \<open>versionCompare\<close>, which is not among the sources: it is the parameter \<open>vc\<close>, here
  applied to versions that may be undefined. Reading \<open>page.pub.url\<close> of a page found that
  has no \<open>pub\<close> is a TypeError.
\<close>

definition pageIdSansVersion :: "src \<Rightarrow> ((src \<Rightarrow> string option) \<times> string option) list"
  where
  "pageIdSansVersion pageSrc =
     [(component, component pageSrc), (module, module pageSrc), (family, Some ''page''),
      (relative, relative pageSrc)]"

definition getPageVersions ::
  "(string option \<Rightarrow> string option \<Rightarrow> int) \<Rightarrow> src \<Rightarrow> component_entry \<Rightarrow> catalog \<Rightarrow>
   error + page_version list option" where
  "getPageVersions vc pageSrc cpt c =
     (if length (versions cpt) > 1 then
        (let pages = findBy c (pageIdSansVersion pageSrc)
         in if list_ex (\<lambda>page. pub page = None) pages then Inl TypeError
            else
              (let pageVersions = map_of (rev (map (\<lambda>page.
                       (str (version (src page)),
                        PageVersion (version (src page))
                          (case pub page of None \<Rightarrow> [] | Some pb \<Rightarrow> url pb) False)) pages));
                   has = (\<lambda>v. pageVersions v \<noteq> None \<or> v \<in> set Object_prototype \<or>
                               (pageVersions ''__proto__'' \<noteq> None \<and>
                                (v = ''version'' \<or> v = ''url'')))
               in Inr (Some (sort_by (\<lambda>a b. vc (version_of a) (version_of b))
                    (map (\<lambda>ve. if has (ve_version ve)
                                then (case pageVersions (ve_version ve) of
                                        Some e \<Rightarrow> e
                                      | None \<Rightarrow> Other_value)
                                else PageVersion (Some (ve_version ve)) (ve_url ve) True)
                       (versions cpt))))))
      else Inr None)"

text \<open>
  The model of the page. The page without a component whose stem is 404 has a layout and
  a title and nothing else; \<open>pm_details\<close> is the rest of the model of every other page.
  \<open>pd_attributes\<close> are the attributes whose name begins with \<open>page-\<close>, under what follows
  the prefix; the layout is read from them under the name \<open>layout\<close>.
  \<open>pd_canonicalUrl\<close> is also what the code writes to \<open>file.pub.canonicalUrl\<close>.
\<close>

record page_details =
  pd_contents :: "string option"
  pd_url :: string
  pd_description :: "string option"
  pd_keywords :: "string option"
  pd_attributes :: "string \<rightharpoonup> string"
  pd_component :: component_entry
  pd_componentVersion :: "version_entry option"
  pd_version :: "string option"
  pd_module :: "string option"
  pd_versions :: "page_version list option"
  pd_navigation :: "nav_item list"
  pd_breadcrumbs :: "crumb list"
  pd_editUrl :: "string option"
  pd_home :: bool
  pd_canonicalUrl :: "string option"

record page_model =
  pm_layout :: string
  pm_title :: "string option"
  pm_details :: "page_details option"

text \<open>
  \<open>buildPageUiModel\<close>. Apart from the 404 page, the code reads \<open>file.pub.url\<close>, which is a
  TypeError for a file without \<open>pub\<close>, and \<open>component.versions.length\<close> of what
  \<open>getComponent\<close> returns, which is a TypeError when that is undefined or a member of
  \<open>Object.prototype\<close>. \<open>versions[0]\<close> is read only of a list as long as the versions of the
  component, which are more than one. The menu is the empty list when the navigation
  catalog has none for the component version.
\<close>

definition buildPageUiModel ::
  "(string option \<Rightarrow> string option \<Rightarrow> int) \<Rightarrow> vfile \<Rightarrow> document \<Rightarrow> catalog \<Rightarrow>
   (string \<rightharpoonup> nav_item list) \<Rightarrow> site_model \<Rightarrow> error + page_model" where
  "buildPageUiModel vc f doc c menus site =
     (let componentName = component (src f); version' = version (src f)
      in if \<not> truthy componentName \<and> stem (src f) = Some ''404''
         then Inr \<lparr>pm_layout = str (stem (src f)), pm_title = doc_title doc,
                   pm_details = None\<rparr>
         else
           (case pub f of
              None \<Rightarrow> Inl TypeError
            | Some pb \<Rightarrow>
           (case getComponent c componentName of
              Missing \<Rightarrow> Inl TypeError
            | Inherited \<Rightarrow> Inl TypeError
            | Own cpt \<Rightarrow>
           (case getPageVersions vc (src f) cpt c of
              Inl e \<Rightarrow> Inl e
            | Inr versions' \<Rightarrow>
           (case (if truthy (site_url site)
                  then (case versions' of
                          None \<Rightarrow> Inr (Some (str (site_url site) @ url pb))
                        | Some [] \<Rightarrow> Inl TypeError
                        | Some (first # _) \<Rightarrow>
                            Inr (Some (str (site_url site) @ str (url_of first))))
                  else Inr None) of
              Inl e \<Rightarrow> Inl e
            | Inr canonicalUrl \<Rightarrow>
                (let navigation = (case getMenu menus componentName version' of
                                     None \<Rightarrow> []
                                   | Some menu \<Rightarrow> menu);
                     title = doc_doctitle doc
                 in Inr \<lparr>pm_layout =
                           (if truthy (doc_attributes doc ''page-layout'')
                            then str (doc_attributes doc ''page-layout'')
                            else site_ui_defaultLayout site),
                         pm_title = title,
                         pm_details = Some
                           \<lparr>pd_contents = doc_contents doc,
                            pd_url = url pb,
                            pd_description = doc_attributes doc ''description'',
                            pd_keywords = doc_attributes doc ''keywords'',
                            pd_attributes = (\<lambda>name. doc_attributes doc (''page-'' @ name)),
                            pd_component = cpt,
                            pd_componentVersion = getComponentVersion (versions cpt) version',
                            pd_version = version',
                            pd_module = module (src f),
                            pd_versions = versions',
                            pd_navigation = navigation,
                            pd_breadcrumbs = getBreadcrumbs (url pb) title navigation,
                            pd_editUrl = doc_editUrl doc,
                            pd_home = (Some (url pb) = site_homeUrl site),
                            pd_canonicalUrl = canonicalUrl\<rparr>\<rparr>))))))"

text \<open>
  \<open>buildUiModel\<close>: after the model of the page, \<open>file.pub.rootPath\<close> is read, a TypeError
  for a file without \<open>pub\<close>, and joined to the URL of the UI, a TypeError when it is
  undefined.
\<close>

record ui_model =
  um_page :: page_model
  um_site :: site_model
  um_siteRootPath :: "string option"
  um_uiRootPath :: string

definition buildUiModel ::
  "(string option \<Rightarrow> string option \<Rightarrow> int) \<Rightarrow> vfile \<Rightarrow> document \<Rightarrow> catalog \<Rightarrow>
   (string \<rightharpoonup> nav_item list) \<Rightarrow> site_model \<Rightarrow> error + ui_model" where
  "buildUiModel vc f doc c menus site =
     (case buildPageUiModel vc f doc c menus site of
        Inl e \<Rightarrow> Inl e
      | Inr page \<Rightarrow>
     (case pub f of
        None \<Rightarrow> Inl TypeError
      | Some pb \<Rightarrow>
     (case path_join [pub_rootPath pb, Some (site_ui_url site)] of
        Inl e \<Rightarrow> Inl e
      | Inr uiRootPath \<Rightarrow>
          Inr \<lparr>um_page = page, um_site = site, um_siteRootPath = pub_rootPath pb,
               um_uiRootPath = uiRootPath\<rparr>)))"

text \<open>\<open>layouts\<close> maps the name of a layout to its compiled template; the result is the new
  contents of the file.\<close>

definition composePage ::
  "(string \<rightharpoonup> (ui_model \<Rightarrow> string)) \<Rightarrow> (string option \<Rightarrow> string option \<Rightarrow> int) \<Rightarrow>
   site_model \<Rightarrow> vfile \<Rightarrow> document \<Rightarrow> catalog \<Rightarrow> (string \<rightharpoonup> nav_item list) \<Rightarrow> error + string"
  where
  "composePage layouts vc site f doc c menus =
     (case buildUiModel vc f doc c menus site of
        Inl e \<Rightarrow> Inl e
      | Inr uiModel \<Rightarrow>
          (let layout = pm_layout (um_page uiModel)
           in case layouts layout of
                Some template \<Rightarrow> Inr (template uiModel)
              | None \<Rightarrow>
                  if layout = ''404'' then Inl (LayoutNotFound Missing_404)
                  else
                    (let defaultLayout = site_ui_defaultLayout (um_site uiModel)
                     in if defaultLayout = layout then Inl (LayoutNotFound Missing_default)
                        else case layouts defaultLayout of
                               None \<Rightarrow> Inl (LayoutNotFound Missing_layout_and_fallback)
                             | Some template \<Rightarrow> Inr (template uiModel))))"

section \<open>The version order\<close>

text \<open>
  Modelled from the spec: \<open>util/version-compare-desc.js\<close> is missing from the sources. The
  spec asks for a total order over version strings, descending, negative when the first
  version is the newer one, transitive and antisymmetric, and leaves the scheme to the
  implementation. \<open>version_order\<close> is that contract. \<open>versionCompare\<close> is one order that
  keeps it, the lexicographic one: of two different strings the greater is the newer, which
  puts 3.0 before 2.0 before 1.5 before 1.0 as the spec's scenario does.
\<close>

definition version_order :: "(string \<Rightarrow> string \<Rightarrow> int) \<Rightarrow> bool" where
  "version_order vc \<longleftrightarrow>
     (\<forall>a b. (vc a b > 0) = (vc b a < 0)) \<and>
     (\<forall>a b c. vc a b \<le> 0 \<and> vc b c \<le> 0 \<longrightarrow> vc a c \<le> 0)"

definition versionCompare :: "string \<Rightarrow> string \<Rightarrow> int" where
  "versionCompare a b = (if a = b then 0 else if b < a then - 1 else 1)"

text \<open>Versions listed from the newest to the oldest: no version sorts after one that
  follows it.\<close>

definition newest_first :: "(string \<Rightarrow> string \<Rightarrow> int) \<Rightarrow> string list \<Rightarrow> bool" where
  "newest_first vc vs = sorted_wrt (\<lambda>a b. vc a b \<le> 0) vs"

text \<open>What a component of the catalog keeps true: it has a version, its versions are listed
  newest first, \<open>latestVersion\<close> is the first of them, and the URL and the title of the
  component are those of that version.\<close>

definition latest_first :: "(string \<Rightarrow> string \<Rightarrow> int) \<Rightarrow> component_entry \<Rightarrow> bool" where
  "latest_first vc cpt \<longleftrightarrow>
     versions cpt \<noteq> [] \<and>
     newest_first vc (map ve_version (versions cpt)) \<and>
     latestVersion cpt = Some (hd (versions cpt)) \<and>
     comp_url cpt = ve_url (hd (versions cpt)) \<and>
     comp_title cpt = ve_title (hd (versions cpt))"

text \<open>The versions after \<open>push\<close> (no index) or \<open>splice\<close> (at the index).\<close>

definition insert_at :: "nat option \<Rightarrow> 'a \<Rightarrow> 'a list \<Rightarrow> 'a list" where
  "insert_at r e vs = (case r of None \<Rightarrow> vs @ [e] | Some i \<Rightarrow> take i vs @ [e] @ drop i vs)"


section \<open>Example data\<close>

text \<open>
  The inputs of the witnesses and counterexamples: a file as the aggregator hands it over
  (path, media type, and the name parts of the path in its src), one component version
  with two pages, a playbook that names a site start page, and the catalog that
  \<open>classifyContent\<close> builds from them. The start page ID of the examples has empty
  coordinates and the page \<open>index.adoc\<close>; the working directory is \<open>/work\<close>.
\<close>

definition raw_page :: "string \<Rightarrow> vfile" where
  "raw_page p =
     File (Some p) (Some ''text/asciidoc'')
       (empty_src\<lparr>basename := Some (path_basename p), extname := Some (path_extname p),
          stem := Some (path_basename_ext p (path_extname p)),
          mediaType := Some ''text/asciidoc''\<rparr>)
       None None None None"

definition example_aggregate :: "component_version list" where
  "example_aggregate =
     [\<lparr>cv_name = ''docs'', cv_version = ''2.0'', cv_title = Value ''Docs'',
       cv_start_page = Absent, cv_nav = Absent,
       cv_files = [raw_page ''modules/ROOT/pages/intro.adoc'',
                   raw_page ''modules/ROOT/pages/index.adoc'']\<rparr>]"

definition example_playbook :: playbook where
  "example_playbook =
     \<lparr>urls_htmlExtensionStyle = None, site_startPage = Some ''docs::intro''\<rparr>"

definition example_start_page_id :: src where
  "example_start_page_id =
     empty_src\<lparr>component := Some [], version := Some [], module := Some [],
       family := Some ''page'', relative := Some ''index.adoc''\<rparr>"

definition example_catalog :: catalog where
  "example_catalog =
     projr (classifyContent versionCompare ''/work'' example_start_page_id example_playbook
              example_aggregate)"

text \<open>The page (docs, 2.0, ROOT, page, intro.adoc) as the example catalog holds it.\<close>

definition intro_src :: src where
  "intro_src =
     \<lparr>component = Some ''docs'', version = Some ''2.0'', module = Some ''ROOT'',
      family = Some ''page'', relative = Some ''intro.adoc'', basename = Some ''intro.adoc'',
      extname = Some ''.adoc'', stem = Some ''intro'', mediaType = Some ''text/asciidoc'',
      moduleRootPath = Some ''..''\<rparr>"

definition intro_page :: vfile where
  "intro_page =
     File (Some ''modules/ROOT/pages/intro.adoc'') (Some ''text/asciidoc'') intro_src
       (Some \<lparr>out_dirname = ''docs/2.0'', out_basename = ''intro.html'',
              out_path = ''docs/2.0/intro.html'', out_moduleRootPath = ''.'',
              out_rootPath = ''../..''\<rparr>)
       (Some \<lparr>url = ''/docs/2.0/intro.html'', pub_moduleRootPath = Some ''.'',
              pub_rootPath = Some ''../..''\<rparr>)
       None None"

definition docs_component :: component_entry where
  "docs_component =
     \<lparr>comp_name = ''docs'', comp_title = Some ''Docs'', comp_url = ''/docs/2.0/index.html'',
      versions = [\<lparr>ve_title = Some ''Docs'', ve_version = ''2.0'',
                   ve_url = ''/docs/2.0/index.html''\<rparr>]\<rparr>"

definition old_intro_alias :: src where
  "old_intro_alias =
     empty_src\<lparr>component := Some ''docs'', version := Some ''2.0'', module := Some ''ROOT'',
       family := Some ''alias'', relative := Some ''old-intro.adoc''\<rparr>"

text \<open>The same page before it is added (no \<open>out\<close>, no \<open>pub\<close>), and the catalog that
  holds this page alone, no component version registered.\<close>

definition intro_unpublished :: vfile where
  "intro_unpublished =
     File (Some ''modules/ROOT/pages/intro.adoc'') (Some ''text/asciidoc'') intro_src
       None None None None"

definition page_only_catalog :: catalog where
  "page_only_catalog =
     projr (addFile ''/work'' (new_ContentCatalog example_playbook) intro_unpublished)"

text \<open>Two files that come with a \<open>pub\<close> of their own and no \<open>out\<close>: an example file and a
  page.\<close>

definition given_pub :: pub where
  "given_pub = \<lparr>url = ''/given'', pub_moduleRootPath = None, pub_rootPath = None\<rparr>"

definition example_with_pub :: vfile where
  "example_with_pub =
     File (Some ''modules/ROOT/examples/data.txt'') (Some ''text/plain'')
       (intro_src\<lparr>family := Some ''example'', relative := Some ''data.txt'',
          basename := Some ''data.txt'', extname := Some ''.txt'', stem := Some ''data'',
          mediaType := Some ''text/plain''\<rparr>)
       None (Some given_pub) None None"

definition page_with_pub :: vfile where
  "page_with_pub =
     File (Some ''modules/ROOT/pages/intro.adoc'') (Some ''text/asciidoc'') intro_src
       None (Some given_pub) None None"

text \<open>What three references of two repositories hand to \<open>buildAggregate\<close>: the first
  repository has version 2.0 and version 1.0 of docs, the second has more files of version
  2.0 under another title.\<close>

definition descriptor ::
  "string \<Rightarrow> string \<Rightarrow> string property \<Rightarrow> vfile list \<Rightarrow> component_version" where
  "descriptor n v t fs =
     \<lparr>cv_name = n, cv_version = v, cv_title = t, cv_start_page = Absent, cv_nav = Absent,
      cv_files = fs\<rparr>"


text \<open>The example catalog with one more page, \<open>_hidden/start.adoc\<close>, which is not
  publishable and so has no \<open>pub\<close>.\<close>

definition hidden_catalog :: catalog where
  "hidden_catalog =
     projr (classifyContent versionCompare ''/work'' example_start_page_id example_playbook
              [descriptor ''docs'' ''2.0'' (Value ''Docs'')
                 [raw_page ''modules/ROOT/pages/intro.adoc'',
                  raw_page ''modules/ROOT/pages/index.adoc'',
                  raw_page ''modules/ROOT/pages/_hidden/start.adoc'']])"


text \<open>
  For the composer: a site model, the document of a page with given attributes, the menu
  of version 2.0 of docs, the 404 page as the site generator makes it (no component, a
  \<open>pub\<close> at the root of the site), and a catalog with the versions 1.0 and 2.0 of docs,
  each with the page \<open>intro.adoc\<close>. The comparison of the examples reads an undefined
  version as the string \<open>undefined\<close>.
\<close>

definition example_site :: site_model where
  "example_site =
     \<lparr>site_url = Some ''https://example.org'', site_homeUrl = Some ''/docs/2.0/intro.html'',
      site_ui_url = ''/_'', site_ui_defaultLayout = ''default''\<rparr>"

definition example_document :: "(string \<rightharpoonup> string) \<Rightarrow> document" where
  "example_document attrs =
     \<lparr>doc_contents = Some ''<p>Hello</p>'', doc_title = Some ''Page Not Found'',
      doc_doctitle = Some ''Intro'', doc_attributes = attrs, doc_editUrl = None\<rparr>"

definition example_menus :: "string \<rightharpoonup> nav_item list" where
  "example_menus =
     [''docs:2.0'' \<mapsto>
        [NavItem None None
           [NavItem (Some ''Start'') (Some (''/docs/2.0/index.html'', ''internal'', None))
              [NavItem (Some ''Intro'')
                 (Some (''/docs/2.0/intro.html#top'', ''internal'', Some ''#top'')) []]]]]"

definition page_404 :: vfile where
  "page_404 =
     File (Some ''404.html'') (Some ''text/html'')
       (empty_src\<lparr>basename := Some ''404.html'', extname := Some ''.html'',
          stem := Some ''404'', mediaType := Some ''text/html''\<rparr>)
       (Some \<lparr>out_dirname = [], out_basename = ''404.html'', out_path = ''404.html'',
              out_moduleRootPath = ''.'', out_rootPath = ''.''\<rparr>)
       (Some \<lparr>url = ''/404.html'', pub_moduleRootPath = Some ''.'', pub_rootPath = Some ''.''\<rparr>)
       None None"

definition two_versions_aggregate :: "component_version list" where
  "two_versions_aggregate =
     [descriptor ''docs'' ''1.0'' (Value ''Docs'')
        [raw_page ''modules/ROOT/pages/intro.adoc'', raw_page ''modules/ROOT/pages/index.adoc''],
      descriptor ''docs'' ''2.0'' (Value ''Docs'')
        [raw_page ''modules/ROOT/pages/intro.adoc'', raw_page ''modules/ROOT/pages/index.adoc'']]"

definition two_versions_catalog :: catalog where
  "two_versions_catalog =
     projr (classifyContent versionCompare ''/work'' example_start_page_id example_playbook
              two_versions_aggregate)"

definition compare_versions :: "string option \<Rightarrow> string option \<Rightarrow> int" where
  "compare_versions a b = versionCompare (str a) (str b)"

text \<open>Templates that write a letter and the layout the page asked for: a UI that has the
  default layout alone, and one that has the layouts \<open>special\<close>, \<open>404\<close> and \<open>default\<close>.\<close>

definition default_only :: "string \<rightharpoonup> (ui_model \<Rightarrow> string)" where
  "default_only = [''default'' \<mapsto> (\<lambda>m. ''D:'' @ pm_layout (um_page m))]"

definition three_layouts :: "string \<rightharpoonup> (ui_model \<Rightarrow> string)" where
  "three_layouts =
     [''special'' \<mapsto> (\<lambda>m. ''S:'' @ pm_layout (um_page m)),
      ''404'' \<mapsto> (\<lambda>m. ''N:'' @ pm_layout (um_page m)),
      ''default'' \<mapsto> (\<lambda>m. ''D:'' @ pm_layout (um_page m))]"

section \<open>Properties of the page ID parser\<close>

lemma run_then_split: "a \<noteq> [] \<Longrightarrow> c \<notin> set a \<Longrightarrow> run_then c (a @ c # r) = Some (a, r)"
proof -
  assume a: "a \<noteq> []" and c: "c \<notin> set a"
  have all: "\<And>x. x \<in> set a \<Longrightarrow> x \<noteq> c" using c by auto
  have t: "takeWhile (\<lambda>x. x \<noteq> c) (a @ c # r) = a"
    using all by (simp add: takeWhile_append2)
  have d: "dropWhile (\<lambda>x. x \<noteq> c) (a @ c # r) = c # r"
    using all by (simp add: dropWhile_append2)
  show ?thesis using a by (simp add: run_then_def t d)
qed

lemma run_then_none: "c \<notin> set s \<Longrightarrow> run_then c s = None"
  by (simp add: run_then_def Let_def)

lemma run_then_head: "run_then c (c # r) = None"
  by (simp add: run_then_def)

lemma page_lazy_total:
  "CHR '':'' \<notin> set r \<Longrightarrow> acc \<noteq> [] \<or> r \<noteq> [] \<Longrightarrow> \<exists>pg. page_lazy acc r = Some pg"
  by (induction acc r rule: page_lazy.induct) auto

lemma page_lazy_shape:
  "page_lazy acc r = Some pg \<Longrightarrow> pg \<noteq> [] \<and> (acc @ r = pg \<or> acc @ r = pg @ ''.adoc'')"
  by (induction acc r rule: page_lazy.induct) (auto split: if_splits)

lemma module_alts_one:
  "q \<noteq> [] \<Longrightarrow> CHR '':'' \<notin> set q \<Longrightarrow> module_alts (q @ CHR '':'' # p) = [(Some q, p)]"
proof -
  assume q: "q \<noteq> []" "CHR '':'' \<notin> set q"
  then have "hd (q @ CHR '':'' # p) \<noteq> CHR '':''" by (cases q) auto
  moreover have "q @ CHR '':'' # p \<noteq> []" by simp
  ultimately have "(case q @ CHR '':'' # p of [] \<Rightarrow> [] | c # r' \<Rightarrow> if c = CHR '':'' then [(None, r')] else []) = ([] :: (string option \<times> string) list)"
    by (cases "q @ CHR '':'' # p") auto
  then show ?thesis using q by (simp add: module_alts_def run_then_split)
qed

lemma module_alts_page:
  "p \<noteq> [] \<Longrightarrow> CHR '':'' \<notin> set p \<Longrightarrow> module_alts p = []"
  by (cases p) (auto simp add: module_alts_def run_then_none)

lemma module_alts_colon: "module_alts (CHR '':'' # p) = [(None, p)]"
  by (simp add: module_alts_def run_then_head)

lemma qualifier_alts_one:
  "q \<noteq> [] \<Longrightarrow> CHR '':'' \<notin> set q \<Longrightarrow> p \<noteq> [] \<Longrightarrow> CHR '':'' \<notin> set p \<Longrightarrow>
   qualifier_alts (q @ CHR '':'' # p) = [(None, Some q, p), (None, None, q @ CHR '':'' # p)]"
  by (simp add: qualifier_alts_def run_then_split module_alts_one module_alts_page)

lemma qualifier_alts_two:
  "q \<noteq> [] \<Longrightarrow> CHR '':'' \<notin> set q \<Longrightarrow> CHR '':'' \<notin> set m \<Longrightarrow>
   \<exists>rest. qualifier_alts (q @ CHR '':'' # m @ CHR '':'' # p) =
     (Some q, if m = [] then None else Some m, p) # rest"
  by (simp add: qualifier_alts_def run_then_split module_alts_one module_alts_colon)

lemma version_alts_some:
  "v \<noteq> [] \<Longrightarrow> CHR ''@'' \<notin> set v \<Longrightarrow>
   version_alts (v @ CHR ''@'' # r) = [(Some v, r), (None, v @ CHR ''@'' # r)]"
  by (simp add: version_alts_def run_then_split)

lemma version_alts_none:
  "CHR ''@'' \<notin> set s \<Longrightarrow> version_alts s = [(None, s)]"
  by (simp add: version_alts_def run_then_none)

lemma PAGE_ID_RX_one:
  assumes "q \<noteq> []" "CHR '':'' \<notin> set q" "p \<noteq> []" "CHR '':'' \<notin> set p"
    and "vo = None \<longrightarrow> CHR ''@'' \<notin> set q \<and> CHR ''@'' \<notin> set p"
    and "\<forall>v. vo = Some v \<longrightarrow> v \<noteq> [] \<and> CHR ''@'' \<notin> set v"
    and "page_lazy [] p = Some pg"
  shows "PAGE_ID_RX ((case vo of None \<Rightarrow> [] | Some v \<Rightarrow> v @ ''@'') @ q @ '':'' @ p) =
           Some (vo, None, Some q, pg)"
proof (cases vo)
  case None
  then have "CHR ''@'' \<notin> set (q @ CHR '':'' # p)" using assms(5) by simp
  then have "version_alts (q @ CHR '':'' # p) = [(None, q @ CHR '':'' # p)]"
    by (rule version_alts_none)
  then show ?thesis using None assms(1-4,7)
    by (simp add: PAGE_ID_RX_def qualifier_alts_one)
next
  case (Some v)
  then have "v \<noteq> []" "CHR ''@'' \<notin> set v" using assms(6) by auto
  then have "version_alts (v @ CHR ''@'' # q @ CHR '':'' # p) =
      [(Some v, q @ CHR '':'' # p), (None, v @ CHR ''@'' # q @ CHR '':'' # p)]"
    by (rule version_alts_some)
  then show ?thesis using Some assms(1-4,7)
    by (simp add: PAGE_ID_RX_def qualifier_alts_one)
qed

lemma PAGE_ID_RX_two:
  assumes "q \<noteq> []" "CHR '':'' \<notin> set q" "CHR '':'' \<notin> set m"
    and "vo = None \<longrightarrow> CHR ''@'' \<notin> set q \<and> CHR ''@'' \<notin> set m \<and> CHR ''@'' \<notin> set p"
    and "\<forall>v. vo = Some v \<longrightarrow> v \<noteq> [] \<and> CHR ''@'' \<notin> set v"
    and "page_lazy [] p = Some pg"
  shows "PAGE_ID_RX ((case vo of None \<Rightarrow> [] | Some v \<Rightarrow> v @ ''@'') @ q @ '':'' @ m @ '':'' @ p) =
           Some (vo, Some q, if m = [] then None else Some m, pg)"
proof -
  obtain rest where qa: "qualifier_alts (q @ CHR '':'' # m @ CHR '':'' # p) =
     (Some q, if m = [] then None else Some m, p) # rest"
    using qualifier_alts_two [OF assms(1-3)] by blast
  show ?thesis
  proof (cases vo)
    case None
    then have "CHR ''@'' \<notin> set (q @ CHR '':'' # m @ CHR '':'' # p)" using assms(4) by simp
    then have "version_alts (q @ CHR '':'' # m @ CHR '':'' # p) =
        [(None, q @ CHR '':'' # m @ CHR '':'' # p)]"
      by (rule version_alts_none)
    then show ?thesis using None qa assms(6)
      by (simp add: PAGE_ID_RX_def)
  next
    case (Some v)
    then have "v \<noteq> []" "CHR ''@'' \<notin> set v" using assms(5) by auto
    then have "version_alts (v @ CHR ''@'' # q @ CHR '':'' # m @ CHR '':'' # p) =
        [(Some v, q @ CHR '':'' # m @ CHR '':'' # p),
         (None, v @ CHR ''@'' # q @ CHR '':'' # m @ CHR '':'' # p)]"
      by (rule version_alts_some)
    then show ?thesis using Some qa assms(6)
      by (simp add: PAGE_ID_RX_def)
  qed
qed


lemma page_lazy_adoc:
  "CHR '':'' \<notin> set p \<Longrightarrow> acc \<noteq> [] \<or> p \<noteq> [] \<Longrightarrow> page_lazy acc (p @ ''.adoc'') = Some (acc @ p)"
proof (induction p arbitrary: acc)
  case Nil
  then show ?case by simp
next
  case (Cons x xs)
  have "length (x # xs @ ''.adoc'') \<noteq> length ''.adoc''" by simp
  then have ne: "x # xs @ ''.adoc'' \<noteq> ''.adoc''" by metis
  have "page_lazy acc ((x # xs) @ ''.adoc'') = page_lazy (acc @ [x]) (xs @ ''.adoc'')"
    using Cons.prems(1) ne by auto
  also have "\<dots> = Some ((acc @ [x]) @ xs)"
    using Cons.prems(1) by (intro Cons.IH) auto
  finally show ?case by simp
qed

text \<open>
  C8. Parsing \<open>ver@comp:mod:topic/page.adoc\<close> with an empty context and writing the result
  back as version, \<open>@\<close>, component, \<open>:\<close>, module, \<open>:\<close>, relative gives the spec again. The
  theorem holds for every spec of that shape: a version without \<open>@\<close>, a component, a module
  and a page path without colons, none of them empty, and the extension \<open>.adoc\<close>. The spec of
  the claim is the instance below.
\<close>

theorem parsePageId_round_trip:
  assumes "v \<noteq> []" "CHR ''@'' \<notin> set v"
    and "c \<noteq> []" "CHR '':'' \<notin> set c"
    and "m \<noteq> []" "CHR '':'' \<notin> set m"
    and "p \<noteq> []" "CHR '':'' \<notin> set p"
  shows "map_option
           (\<lambda>r. str (version r) @ ''@'' @ str (component r) @ '':'' @ str (module r) @ '':'' @
                str (relative r))
           (parsePageId (v @ ''@'' @ c @ '':'' @ m @ '':'' @ p @ ''.adoc'') empty_src) =
         Some (v @ ''@'' @ c @ '':'' @ m @ '':'' @ p @ ''.adoc'')"
proof -
  have pl: "page_lazy [] (p @ ''.adoc'') = Some p"
    using page_lazy_adoc [of p "[]"] assms(7,8) by simp
  have "PAGE_ID_RX ((case Some v of None \<Rightarrow> [] | Some v \<Rightarrow> v @ ''@'') @ c @ '':'' @ m @ '':'' @
          (p @ ''.adoc'')) = Some (Some v, Some c, if m = [] then None else Some m, p)"
    using assms(1-4,6) pl by (intro PAGE_ID_RX_two) auto
  then have "PAGE_ID_RX (v @ ''@'' @ c @ '':'' @ m @ '':'' @ p @ ''.adoc'') =
      Some (Some v, Some c, Some m, p)"
    using assms(5) by simp
  then show ?thesis
    using assms(3,5) by (simp add: parsePageId_def truthy_def str_def empty_src_def)
qed

theorem parsePageId_round_trip_witness:
  "map_option
     (\<lambda>r. str (version r) @ ''@'' @ str (component r) @ '':'' @ str (module r) @ '':'' @
          str (relative r))
     (parsePageId ''ver@comp:mod:topic/page.adoc'' empty_src) =
   Some ''ver@comp:mod:topic/page.adoc''"
  using parsePageId_round_trip [of "''ver''" "''comp''" "''mod''" "''topic/page''"] by simp

text \<open>
  C9. A spec with one qualifier before the page path, \<open>[version@]q:page\<close>, gives the
  qualifier to the module and takes the component from the context (so does the version
  when the spec has none); the qualifier is never the component. With two qualifiers,
  \<open>[version@]q:m:page\<close>, the first is the component, the context is not consulted, the
  version stays undefined when the spec has none, and an empty \<open>m\<close> makes the module ROOT.
  The version of a spec is what stands before its first \<open>@\<close>; a spec without a version
  has no \<open>@\<close>.
\<close>

theorem parsePageId_qualifiers:
  assumes "q \<noteq> []" "CHR '':'' \<notin> set q" "CHR '':'' \<notin> set m" "p \<noteq> []" "CHR '':'' \<notin> set p"
    and "vo = None \<longrightarrow> CHR ''@'' \<notin> set q \<and> CHR ''@'' \<notin> set m \<and> CHR ''@'' \<notin> set p"
    and "\<forall>v. vo = Some v \<longrightarrow> v \<noteq> [] \<and> CHR ''@'' \<notin> set v"
  shows "\<exists>pg. page_lazy [] p = Some pg \<and>
           parsePageId ((case vo of None \<Rightarrow> [] | Some v \<Rightarrow> v @ ''@'') @ q @ '':'' @ p) ctx =
             Some (empty_src\<lparr>component := component ctx,
                     version := (case vo of None \<Rightarrow> version ctx | Some v \<Rightarrow> Some v),
                     module := Some q, family := Some ''page'',
                     relative := Some (pg @ ''.adoc'')\<rparr>) \<and>
           parsePageId ((case vo of None \<Rightarrow> [] | Some v \<Rightarrow> v @ ''@'') @ q @ '':'' @ m @ '':'' @ p)
               ctx =
             Some (empty_src\<lparr>component := Some q, version := vo,
                     module := Some (if m = [] then ''ROOT'' else m), family := Some ''page'',
                     relative := Some (pg @ ''.adoc'')\<rparr>)"
proof -
  obtain pg where pg: "page_lazy [] p = Some pg"
    using page_lazy_total [of p "[]"] assms(4,5) by auto
  have one: "PAGE_ID_RX ((case vo of None \<Rightarrow> [] | Some v \<Rightarrow> v @ ''@'') @ q @ '':'' @ p) =
      Some (vo, None, Some q, pg)"
    using assms pg by (intro PAGE_ID_RX_one) auto
  have two: "PAGE_ID_RX ((case vo of None \<Rightarrow> [] | Some v \<Rightarrow> v @ ''@'') @ q @ '':'' @ m @ '':'' @ p) =
      Some (vo, Some q, if m = [] then None else Some m, pg)"
    using assms pg by (intro PAGE_ID_RX_two) auto
  have vt: "truthy vo \<or> vo = None"
    using assms(7) by (cases vo) (auto simp: truthy_def)
  have p1: "parsePageId ((case vo of None \<Rightarrow> [] | Some v \<Rightarrow> v @ ''@'') @ q @ '':'' @ p) ctx =
             Some (empty_src\<lparr>component := component ctx,
                     version := (case vo of None \<Rightarrow> version ctx | Some v \<Rightarrow> Some v),
                     module := Some q, family := Some ''page'',
                     relative := Some (pg @ ''.adoc'')\<rparr>)"
    using one assms(1) vt by (cases vo) (auto simp: parsePageId_def truthy_def)
  have p2: "parsePageId ((case vo of None \<Rightarrow> [] | Some v \<Rightarrow> v @ ''@'') @ q @ '':'' @ m @ '':'' @ p)
               ctx =
             Some (empty_src\<lparr>component := Some q, version := vo,
                     module := Some (if m = [] then ''ROOT'' else m), family := Some ''page'',
                     relative := Some (pg @ ''.adoc'')\<rparr>)"
    using two assms(1) by (auto simp: parsePageId_def truthy_def)
  show ?thesis using pg p1 p2 by blast
qed

theorem parsePageId_qualifiers_witness:
  "\<exists>pg. page_lazy [] ''topic/page'' = Some pg \<and>
     parsePageId ''mod:topic/page''
         (empty_src\<lparr>component := Some ''docs'', version := Some ''1.0'',
            module := Some ''ROOT''\<rparr>) =
       Some (empty_src\<lparr>component := Some ''docs'', version := Some ''1.0'',
               module := Some ''mod'', family := Some ''page'',
               relative := Some (pg @ ''.adoc'')\<rparr>) \<and>
     parsePageId ''mod::topic/page''
         (empty_src\<lparr>component := Some ''docs'', version := Some ''1.0'',
            module := Some ''ROOT''\<rparr>) =
       Some (empty_src\<lparr>component := Some ''mod'', version := None,
               module := Some ''ROOT'', family := Some ''page'',
               relative := Some (pg @ ''.adoc'')\<rparr>)"
  using parsePageId_qualifiers [of "''mod''" "[]" "''topic/page''" None
      "empty_src\<lparr>component := Some ''docs'', version := Some ''1.0'', module := Some ''ROOT''\<rparr>"]
  by simp

section \<open>Properties of the output path and the publish URL\<close>

lemmas path_eval = path_join_def path_dirname_def path_normalize_def normalizeString_def
  norm_step_def Let_def str_def

lemma computeOut_intro_default:
  assumes "component s = Some ''docs''" "version s = Some ''1.0''" "module s = Some ''ROOT''"
    and "relative s = Some ''intro.adoc''" "mediaType s = Some ''text/asciidoc''"
    and "stem s = Some ''intro''" and "style \<noteq> ''indexify''"
  shows "computeOut cwd s (Some ''page'') style =
    Inr \<lparr>out_dirname = ''docs/1.0'', out_basename = ''intro.html'',
         out_path = ''docs/1.0/intro.html'',
         out_moduleRootPath = or_dot (path_relative cwd ''docs/1.0'' ''docs/1.0''),
         out_rootPath = or_dot (path_relative cwd ''docs/1.0'' [])\<rparr>"
  using assms by (simp add: computeOut_def path_eval)

lemma computeOut_intro_indexify:
  assumes "component s = Some ''docs''" "version s = Some ''1.0''" "module s = Some ''ROOT''"
    and "relative s = Some ''intro.adoc''" "mediaType s = Some ''text/asciidoc''"
    and "stem s = Some ''intro''"
  shows "computeOut cwd s (Some ''page'') ''indexify'' =
    Inr \<lparr>out_dirname = ''docs/1.0/intro'', out_basename = ''index.html'',
         out_path = ''docs/1.0/intro/index.html'',
         out_moduleRootPath = or_dot (path_relative cwd ''docs/1.0/intro'' ''docs/1.0''),
         out_rootPath = or_dot (path_relative cwd ''docs/1.0/intro'' [])\<rparr>"
  using assms by (simp add: computeOut_def path_eval)

text \<open>
  C6. A page of component docs, version 1.0, module ROOT, with the relative path
  \<open>intro.adoc\<close> (so the stem \<open>intro\<close>) and the media type \<open>text/asciidoc\<close>: under the style
  \<open>default\<close> its output path is \<open>docs/1.0/intro.html\<close> and its URL \<open>/docs/1.0/intro.html\<close>;
  under \<open>drop\<close> its URL is \<open>/docs/1.0/intro\<close>; under \<open>indexify\<close> its output path is
  \<open>docs/1.0/intro/index.html\<close> and its URL \<open>/docs/1.0/intro/\<close>. This holds whatever the
  working directory and the other properties of the src are.
\<close>

theorem extension_styles:
  assumes "component s = Some ''docs''" "version s = Some ''1.0''" "module s = Some ''ROOT''"
    and "relative s = Some ''intro.adoc''" "mediaType s = Some ''text/asciidoc''"
    and "stem s = Some ''intro''"
  shows "(\<exists>ot pb. computeOut cwd s (Some ''page'') ''default'' = Inr ot \<and>
            computePub s (Some ot) (Some ''page'') ''default'' = Inr pb \<and>
            out_path ot = ''docs/1.0/intro.html'' \<and> url pb = ''/docs/1.0/intro.html'') \<and>
         (\<exists>ot pb. computeOut cwd s (Some ''page'') ''drop'' = Inr ot \<and>
            computePub s (Some ot) (Some ''page'') ''drop'' = Inr pb \<and>
            url pb = ''/docs/1.0/intro'') \<and>
         (\<exists>ot pb. computeOut cwd s (Some ''page'') ''indexify'' = Inr ot \<and>
            computePub s (Some ot) (Some ''page'') ''indexify'' = Inr pb \<and>
            out_path ot = ''docs/1.0/intro/index.html'' \<and> url pb = ''/docs/1.0/intro/'')"
proof (intro conjI)
  show "\<exists>ot pb. computeOut cwd s (Some ''page'') ''default'' = Inr ot \<and>
            computePub s (Some ot) (Some ''page'') ''default'' = Inr pb \<and>
            out_path ot = ''docs/1.0/intro.html'' \<and> url pb = ''/docs/1.0/intro.html''"
    using computeOut_intro_default [OF assms, of "''default''" cwd]
    by (simp add: computePub_def Let_def)
  show "\<exists>ot pb. computeOut cwd s (Some ''page'') ''drop'' = Inr ot \<and>
            computePub s (Some ot) (Some ''page'') ''drop'' = Inr pb \<and>
            url pb = ''/docs/1.0/intro''"
    using computeOut_intro_default [OF assms, of "''drop''" cwd]
    by (simp add: computePub_def Let_def)
  show "\<exists>ot pb. computeOut cwd s (Some ''page'') ''indexify'' = Inr ot \<and>
            computePub s (Some ot) (Some ''page'') ''indexify'' = Inr pb \<and>
            out_path ot = ''docs/1.0/intro/index.html'' \<and> url pb = ''/docs/1.0/intro/''"
    using computeOut_intro_indexify [OF assms, of cwd]
    by (simp add: computePub_def Let_def)
qed

theorem extension_styles_witness:
  "(let s = expandPageSrc (empty_src\<lparr>component := Some ''docs'', version := Some ''1.0'',
              module := Some ''ROOT'', relative := Some ''intro.adoc''\<rparr>) ''page''
    in stem s = Some ''intro'' \<and> mediaType s = Some ''text/asciidoc'' \<and>
       (\<exists>ot pb. computeOut ''/work'' s (Some ''page'') ''indexify'' = Inr ot \<and>
            computePub s (Some ot) (Some ''page'') ''indexify'' = Inr pb \<and>
            out_path ot = ''docs/1.0/intro/index.html'' \<and> url pb = ''/docs/1.0/intro/''))"
  using extension_styles [of "expandPageSrc (empty_src\<lparr>component := Some ''docs'',
      version := Some ''1.0'', module := Some ''ROOT'', relative := Some ''intro.adoc''\<rparr>) ''page''"
      "''/work''"]
  by (simp add: expandPageSrc_def empty_src_def str_def path_extname_def path_basename_def
      path_basename_ext_def last_segment_def Let_def)

section \<open>Properties of \<open>addFile\<close>\<close>

lemma files_new: "files (new_ContentCatalog pb) = Map.empty"
  by (simp add: files_def new_ContentCatalog_def)

lemma files_add:
  "files c k = None \<Longrightarrow>
   files (c\<lparr>file_table := file_table c @ [(k, f)]\<rparr>) = (files c)(k \<mapsto> f)"
  by (rule ext) (simp add: files_def map_add_def split: option.splits)

lemma files_components: "files (c\<lparr>components := m\<rparr>) = files c"
  by (simp add: files_def)

lemma sum_case_list_Inr:
  "\<exists>p. (case xs of [] \<Rightarrow> Inr a | y # ys \<Rightarrow> if c ys then Inr b else Inr (g ys)) = Inr p"
  by (cases xs) auto

lemma path_dirname_Inr: "\<exists>p. path_dirname (Some r) = Inr p"
proof (cases "r = []")
  case True
  then show ?thesis by (simp add: path_dirname_def)
next
  case False
  then show ?thesis
    by (simp only: path_dirname_def option.case if_False Let_def sum_case_list_Inr)
qed

lemma path_join_Inr:
  "None \<notin> set args \<Longrightarrow>
   path_join args =
     Inr (if join_with ''/'' (filter (\<lambda>a. a \<noteq> []) (map the args)) = [] then ''.''
          else path_normalize (join_with ''/'' (filter (\<lambda>a. a \<noteq> []) (map the args))))"
  unfolding path_join_def Let_def by simp

lemma path_join_ex: "None \<notin> set args \<Longrightarrow> \<exists>p. path_join args = Inr p"
  by (simp add: path_join_Inr)

lemma computeOut_Inr:
  assumes "component s \<noteq> None" "version s \<noteq> None" "module s \<noteq> None" "relative s \<noteq> None"
    and "stem s \<noteq> None" "basename s \<noteq> None"
  shows "\<exists>ot. computeOut cwd s fam style = Inr ot"
proof -
  obtain re where re: "relative s = Some re" using assms by auto
  obtain rd where rd: "path_dirname (relative s) = Inr rd"
    using path_dirname_Inr [of re] re by auto
  define ver where "ver = (if version s = Some ''master'' then Some [] else version s)"
  define mdl where "mdl = (if module s = Some ''ROOT'' then Some [] else module s)"
  define ixf where "ixf = (fam = Some ''page'' \<and> stem s \<noteq> Some ''index'' \<and> style = ''indexify'')"
  define bn where "bn = (if ixf then Some ''index.html''
                       else if mediaType s = Some ''text/asciidoc''
                       then Some (str (stem s) @ ''.html'') else basename s)"
  define seg where "seg = (if ixf then stem s else Some [])"
  have nn: "ver \<noteq> None" "mdl \<noteq> None" "bn \<noteq> None" "seg \<noteq> None"
    using assms by (auto simp: ver_def mdl_def bn_def seg_def)
  obtain mp where mp: "path_join [component s, ver, mdl] = Inr mp"
    using path_join_ex [of "[component s, ver, mdl]"] assms(1) nn by auto
  obtain fps where fps: "fps = (if fam = Some ''image'' then ''_images''
                               else if fam = Some ''attachment'' then ''_attachments'' else [])"
    by simp
  obtain dn where dn: "path_join [Some mp, Some fps, Some rd, seg] = Inr dn"
    using path_join_ex [of "[Some mp, Some fps, Some rd, seg]"] nn by auto
  obtain pa where pa: "path_join [Some dn, bn] = Inr pa"
    using path_join_ex [of "[Some dn, bn]"] nn by auto
  have "computeOut cwd s fam style =
      Inr \<lparr>out_dirname = dn, out_basename = str bn, out_path = pa,
           out_moduleRootPath = or_dot (path_relative cwd dn mp),
           out_rootPath = or_dot (path_relative cwd dn [])\<rparr>"
    unfolding computeOut_def Let_def
    using mp rd dn pa
    by (simp only: ver_def [symmetric] mdl_def [symmetric] ixf_def [symmetric]
        bn_def [symmetric] seg_def [symmetric] fps [symmetric] sum.case)
  then show ?thesis by blast
qed

lemma computePub_Some_Inr: "\<exists>pb. computePub s (Some ot) fam style = Inr pb"
  by (simp add: computePub_def Let_def)

lemma split_on_nonempty: "split_on c xs \<noteq> []"
  by (induction xs) (auto split: list.splits)

lemma hd_split_on_underscore:
  "c \<noteq> CHR ''_'' \<Longrightarrow>
   (hd (split_on c xs) \<noteq> [] \<and> hd (hd (split_on c xs)) = CHR ''_'') = (xs \<noteq> [] \<and> hd xs = CHR ''_'')"
  by (cases xs) (auto split: list.splits simp: split_on_nonempty)

lemma has_substr_segments:
  "has_substr ''/_'' r =
     (\<exists>seg \<in> set (tl (split_on CHR ''/'' r)). seg \<noteq> [] \<and> hd seg = CHR ''_'')"
proof (induction r)
  case Nil
  then show ?case by simp
next
  case (Cons x xs)
  obtain seg segs where sp: "split_on CHR ''/'' xs = seg # segs"
    using split_on_nonempty [of "CHR ''/''" xs] by (cases "split_on CHR ''/'' xs") auto
  have h: "(seg \<noteq> [] \<and> hd seg = CHR ''_'') = (xs \<noteq> [] \<and> hd xs = CHR ''_'')"
    using hd_split_on_underscore [of "CHR ''/''" xs] sp by simp
  show ?case
  proof (cases "x = CHR ''/''")
    case True
    have "take 2 (x # xs) = ''/_'' \<longleftrightarrow> (xs \<noteq> [] \<and> hd xs = CHR ''_'')"
      using True by (cases xs) auto
    then show ?thesis using Cons.IH sp True h by (auto simp: numeral_2_eq_2)
  next
    case False
    have "take 2 (x # xs) \<noteq> ''/_''" using False by (cases xs) auto
    then show ?thesis using Cons.IH sp False by (auto simp: numeral_2_eq_2)
  qed
qed

lemma publishable_path:
  "has_substr ''/_'' (''/'' @ r) =
     (\<exists>seg \<in> set (split_on CHR ''/'' r). seg \<noteq> [] \<and> hd seg = CHR ''_'')"
proof -
  obtain seg segs where sp: "split_on CHR ''/'' r = seg # segs"
    using split_on_nonempty [of "CHR ''/''" r] by (cases "split_on CHR ''/'' r") auto
  show ?thesis
    using has_substr_segments [of "CHR ''/'' # r"] sp by simp
qed

text \<open>What \<open>addFile\<close> stores when it returns: the file it was given, with the \<open>out\<close> and
  the \<open>pub\<close> it has then, at the end of the table and under a key that was free.\<close>

lemma addFile_result:
  assumes "addFile cwd c f = Inr c'"
  shows "\<exists>af out' pub'. actingFamily f = Inr af \<and> files c (generateId (src f)) = None \<and>
           c' = c\<lparr>file_table := file_table c @
                  [(generateId (src f),
                    File (path f) (file_mediaType f) (src f) out' pub' (rel f) (nav f))]\<rparr> \<and>
           (out f \<noteq> None \<longrightarrow> out' = out f) \<and>
           (out f = None \<longrightarrow>
              (out' \<noteq> None) =
                ((af = Some ''page'' \<or> af = Some ''image'' \<or> af = Some ''attachment'') \<and>
                 \<not> has_substr ''/_'' (''/'' @ str (relative (src f))))) \<and>
           (pub f \<noteq> None \<longrightarrow> pub' = pub f) \<and>
           (pub f = None \<longrightarrow> (pub' \<noteq> None) = (out' \<noteq> None \<or> af = Some ''navigation''))"
proof -
  define bad where "bad = has_substr ''/_'' (''/'' @ str (relative (src f)))"
  note add = assms [unfolded addFile_def Let_def bad_def [symmetric]]
  have free: "files c (generateId (src f)) = None"
    using add by (auto split: if_splits)
  obtain af where af: "actingFamily f = Inr af"
    using add by (cases "actingFamily f") (auto split: if_splits)
  define ok where "ok = ((af = Some ''page'' \<or> af = Some ''image'' \<or> af = Some ''attachment'') \<and>
      \<not> bad)"
  define step1 where "step1 =
     (if out f \<noteq> None then Inr (True, out f)
      else if ok
      then (case computeOut cwd (src f) af (htmlUrlExtensionStyle c) of
              Inl e \<Rightarrow> Inl e
            | Inr ot \<Rightarrow> Inr (True, Some ot))
      else Inr (False, None))"
  have add1: "(case step1 of
       Inl e \<Rightarrow> Inl e
     | Inr (publishable, out') \<Rightarrow>
         (case (if pub f = None \<and> (publishable \<or> af = Some ''navigation'')
                then (case computePub (src f) out' af (htmlUrlExtensionStyle c) of
                        Inl e \<Rightarrow> Inl e
                      | Inr pb \<Rightarrow> Inr (Some pb))
                else Inr (pub f)) of
            Inl e \<Rightarrow> Inl e
          | Inr pub' \<Rightarrow>
              Inr (c\<lparr>file_table := file_table c @
                    [(generateId (src f),
                      File (path f) (file_mediaType f) (src f) out' pub' (rel f)
                        (nav f))]\<rparr>))) = Inr c'"
    using add free af unfolding step1_def ok_def by simp
  obtain publishable out' where s1: "step1 = Inr (publishable, out')"
    using add1 by (cases step1) auto
  have o1: "out f \<noteq> None \<longrightarrow> out' = out f \<and> publishable"
    using s1 unfolding step1_def by (cases "out f") simp_all
  have o2: "out f = None \<longrightarrow> (out' \<noteq> None) = ok \<and> publishable = ok"
  proof
    assume "out f = None"
    then show "(out' \<noteq> None) = ok \<and> publishable = ok"
      using s1 unfolding step1_def
      by (cases "computeOut cwd (src f) af (htmlUrlExtensionStyle c)") (auto split: if_splits)
  qed
  have pubout: "publishable = (out' \<noteq> None)"
    using o1 o2 by (cases "out f") auto
  define step2 where "step2 =
     (if pub f = None \<and> (publishable \<or> af = Some ''navigation'')
      then (case computePub (src f) out' af (htmlUrlExtensionStyle c) of
              Inl e \<Rightarrow> Inl e
            | Inr pb \<Rightarrow> Inr (Some pb))
      else Inr (pub f))"
  have add2: "(case step2 of
       Inl e \<Rightarrow> Inl e
     | Inr pub' \<Rightarrow>
         Inr (c\<lparr>file_table := file_table c @
               [(generateId (src f),
                 File (path f) (file_mediaType f) (src f) out' pub' (rel f)
                   (nav f))]\<rparr>)) = Inr c'"
    using add1 s1 unfolding step2_def by simp
  obtain pub' where s2: "step2 = Inr pub'"
    using add2 by (cases step2) auto
  have c': "c' = c\<lparr>file_table := file_table c @
               [(generateId (src f),
                 File (path f) (file_mediaType f) (src f) out' pub' (rel f) (nav f))]\<rparr>"
    using add2 s2 by simp
  have p1: "pub f \<noteq> None \<longrightarrow> pub' = pub f"
    using s2 unfolding step2_def by (cases "pub f") simp_all
  have p2: "pub f = None \<longrightarrow> (pub' \<noteq> None) = (out' \<noteq> None \<or> af = Some ''navigation'')"
  proof
    assume "pub f = None"
    then show "(pub' \<noteq> None) = (out' \<noteq> None \<or> af = Some ''navigation'')"
      using s2 pubout unfolding step2_def
      by (cases "computePub (src f) out' af (htmlUrlExtensionStyle c)") (auto split: if_splits)
  qed
  have o1': "out f \<noteq> None \<longrightarrow> out' = out f"
    using o1 by simp
  have o2': "out f = None \<longrightarrow>
              (out' \<noteq> None) =
                ((af = Some ''page'' \<or> af = Some ''image'' \<or> af = Some ''attachment'') \<and>
                 \<not> has_substr ''/_'' (''/'' @ str (relative (src f))))"
    using o2 unfolding ok_def bad_def by simp
  show ?thesis
    by (rule exI [of _ af], rule exI [of _ out'], rule exI [of _ pub'],
        intro conjI af free c' o1' o2' p1 p2)
qed

text \<open>
  C4 (as amended). For every file that \<open>addFile\<close> adds: when it comes without an \<open>out\<close>,
  the stored file has an \<open>out\<close> (it is publishable) if and only if its acting family is
  page, image or attachment and no segment of its relative path begins with an underscore;
  when it comes with neither an \<open>out\<close> nor a \<open>pub\<close>, the stored file has a \<open>pub\<close> if and
  only if it is publishable or its acting family is navigation; and a file that comes with
  a \<open>pub\<close> keeps it unchanged, whatever its family and whether it has an \<open>out\<close> or not.
\<close>

theorem addFile_publishable:
  assumes "addFile cwd c f = Inr c'"
  shows "\<exists>af f'. actingFamily f = Inr af \<and> files c' (generateId (src f)) = Some f' \<and>
           (out f = None \<longrightarrow>
              (out f' \<noteq> None) =
                ((af = Some ''page'' \<or> af = Some ''image'' \<or> af = Some ''attachment'') \<and>
                 (\<forall>seg \<in> set (split_on CHR ''/'' (str (relative (src f)))).
                    \<not> (seg \<noteq> [] \<and> hd seg = CHR ''_'')))) \<and>
           (out f = None \<and> pub f = None \<longrightarrow>
              (pub f' \<noteq> None) = (out f' \<noteq> None \<or> af = Some ''navigation'')) \<and>
           (\<forall>p. pub f = Some p \<longrightarrow> pub f' = Some p)"
proof -
  obtain af out' pub' where r: "actingFamily f = Inr af \<and>
           files c (generateId (src f)) = None \<and>
           c' = c\<lparr>file_table := file_table c @
                  [(generateId (src f),
                    File (path f) (file_mediaType f) (src f) out' pub' (rel f) (nav f))]\<rparr> \<and>
           (out f \<noteq> None \<longrightarrow> out' = out f) \<and>
           (out f = None \<longrightarrow>
              (out' \<noteq> None) =
                ((af = Some ''page'' \<or> af = Some ''image'' \<or> af = Some ''attachment'') \<and>
                 \<not> has_substr ''/_'' (''/'' @ str (relative (src f))))) \<and>
           (pub f \<noteq> None \<longrightarrow> pub' = pub f) \<and>
           (pub f = None \<longrightarrow> (pub' \<noteq> None) = (out' \<noteq> None \<or> af = Some ''navigation''))"
    using addFile_result [OF assms] by (elim exE) (erule that)
  note af = r [THEN conjunct1]
  note free = r [THEN conjunct2, THEN conjunct1]
  note c' = r [THEN conjunct2, THEN conjunct2, THEN conjunct1]
  note o = r [THEN conjunct2, THEN conjunct2, THEN conjunct2, THEN conjunct2, THEN conjunct1]
  note p1 = r [THEN conjunct2, THEN conjunct2, THEN conjunct2, THEN conjunct2, THEN conjunct2,
      THEN conjunct1]
  note p2 = r [THEN conjunct2, THEN conjunct2, THEN conjunct2, THEN conjunct2, THEN conjunct2,
      THEN conjunct2]
  let ?f' = "File (path f) (file_mediaType f) (src f) out' pub' (rel f) (nav f)"
  have stored: "files c' (generateId (src f)) = Some ?f'"
    unfolding c' by (simp add: files_add [OF free])
  have segs: "has_substr ''/_'' (''/'' @ str (relative (src f))) =
      (\<exists>seg \<in> set (split_on CHR ''/'' (str (relative (src f)))). seg \<noteq> [] \<and> hd seg = CHR ''_'')"
    by (rule publishable_path)
  have a: "out f = None \<longrightarrow>
              (out ?f' \<noteq> None) =
                ((af = Some ''page'' \<or> af = Some ''image'' \<or> af = Some ''attachment'') \<and>
                 (\<forall>seg \<in> set (split_on CHR ''/'' (str (relative (src f)))).
                    \<not> (seg \<noteq> [] \<and> hd seg = CHR ''_'')))"
    using o unfolding segs by simp
  have b: "out f = None \<and> pub f = None \<longrightarrow>
              (pub ?f' \<noteq> None) = (out ?f' \<noteq> None \<or> af = Some ''navigation'')"
    using p2 by simp
  have d: "\<forall>p. pub f = Some p \<longrightarrow> pub ?f' = Some p"
    using p1 by simp
  show ?thesis
    by (rule exI [of _ af], rule exI [of _ ?f'], intro conjI af stored a b d)
qed

theorem addFile_publishable_witness:
  "out intro_unpublished = None \<and> pub intro_unpublished = None \<and>
   (\<exists>f'. files page_only_catalog (generateId (src intro_unpublished)) = Some f' \<and>
      out f' \<noteq> None \<and> pub f' \<noteq> None) \<and>
   pub example_with_pub = Some given_pub \<and>
   (\<exists>f'. files (projr (addFile ''/work'' example_catalog example_with_pub))
            (generateId (src example_with_pub)) = Some f' \<and>
      out f' = None \<and> pub f' = Some given_pub)"
proof -
  have "\<not> isl (addFile ''/work'' (new_ContentCatalog example_playbook) intro_unpublished)"
    by code_simp
  then have eq: "addFile ''/work'' (new_ContentCatalog example_playbook) intro_unpublished =
      Inr page_only_catalog"
    by (simp add: page_only_catalog_def)
  have o: "out intro_unpublished = None" and p: "pub intro_unpublished = None"
    by (simp_all add: intro_unpublished_def)
  have af: "actingFamily intro_unpublished = Inr (Some ''page'')"
    by code_simp
  have segs: "\<forall>seg \<in> set (split_on CHR ''/'' (str (relative (src intro_unpublished)))).
      \<not> (seg \<noteq> [] \<and> hd seg = CHR ''_'')"
    by (simp add: intro_unpublished_def intro_src_def str_def)
  have first: "\<exists>f'. files page_only_catalog (generateId (src intro_unpublished)) = Some f' \<and>
      out f' \<noteq> None \<and> pub f' \<noteq> None"
    using addFile_publishable [OF eq] af segs o p by auto
  have "\<not> isl (addFile ''/work'' example_catalog example_with_pub)"
    by code_simp
  then have eq2: "addFile ''/work'' example_catalog example_with_pub =
      Inr (projr (addFile ''/work'' example_catalog example_with_pub))"
    by simp
  have o2: "out example_with_pub = None" and p2: "pub example_with_pub = Some given_pub"
    by (simp_all add: example_with_pub_def)
  have af2: "actingFamily example_with_pub = Inr (Some ''example'')"
    by code_simp
  have second: "\<exists>f'. files (projr (addFile ''/work'' example_catalog example_with_pub))
            (generateId (src example_with_pub)) = Some f' \<and>
      out f' = None \<and> pub f' = Some given_pub"
    using addFile_publishable [OF eq2] af2 o2 p2 by auto
  show ?thesis
    using o p first p2 second by blast
qed

text \<open>The claim as stated asks only for a missing \<open>out\<close>. A file that brings its own \<open>pub\<close>
  keeps it: an example file then has a \<open>pub\<close> although it is neither publishable nor a
  navigation file, and a publishable page keeps the \<open>pub\<close> it came with instead of the one
  \<open>addFile\<close> computes for the same page.\<close>

theorem addFile_publishable_counterexample:
  "out example_with_pub = None \<and>
   actingFamily example_with_pub = Inr (Some ''example'') \<and>
   \<not> isl (addFile ''/work'' example_catalog example_with_pub) \<and>
   map_option out (files (projr (addFile ''/work'' example_catalog example_with_pub))
      (generateId (src example_with_pub))) = Some None \<and>
   map_option pub (files (projr (addFile ''/work'' example_catalog example_with_pub))
      (generateId (src example_with_pub))) = Some (Some given_pub) \<and>
   out page_with_pub = None \<and>
   actingFamily page_with_pub = Inr (Some ''page'') \<and>
   \<not> isl (addFile ''/work'' (new_ContentCatalog example_playbook) page_with_pub) \<and>
   map_option pub (files (projr (addFile ''/work'' (new_ContentCatalog example_playbook)
      page_with_pub)) (generateId (src page_with_pub))) = Some (Some given_pub) \<and>
   map_option pub (files (projr (addFile ''/work'' (new_ContentCatalog example_playbook)
      intro_unpublished)) (generateId (src page_with_pub))) = Some (pub intro_page)"
  by code_simp

section \<open>Properties of \<open>registerPageAlias\<close>\<close>

lemma run_then_nonempty: "run_then c s = Some (a, b) \<Longrightarrow> a \<noteq> []"
  by (auto simp: run_then_def Let_def split: if_splits)

lemma version_alts_nonempty: "(Some v, r) \<in> set (version_alts s) \<Longrightarrow> v \<noteq> []"
  by (cases "run_then CHR ''@'' s") (auto simp: version_alts_def dest: run_then_nonempty)

lemma PAGE_ID_RX_version_nonempty:
  assumes "PAGE_ID_RX s = Some (Some v, c, m, p)"
  shows "v \<noteq> []"
proof -
  define matches where "matches = concat (map (\<lambda>(v, r).
             concat (map (\<lambda>(c, m, r2).
               (case page_lazy [] r2 of None \<Rightarrow> [] | Some p \<Rightarrow> [(v, c, m, p)]))
             (qualifier_alts r)))
           (version_alts s))"
  have "(Some v, c, m, p) \<in> set matches"
    using assms unfolding PAGE_ID_RX_def matches_def [symmetric]
    by (cases matches) auto
  then obtain r where "(Some v, r) \<in> set (version_alts s)"
    unfolding matches_def by (auto split: option.splits)
  then show ?thesis by (rule version_alts_nonempty)
qed

lemma parsePageId_explicit_version:
  assumes "PAGE_ID_RX spec = Some (Some v, c, m, p)" "parsePageId spec ctx = Some s"
  shows "version s = Some v \<and> truthy (version s)"
proof -
  have "v \<noteq> []" using assms(1) by (rule PAGE_ID_RX_version_nonempty)
  then show ?thesis
    using assms by (auto simp: parsePageId_def truthy_def split: if_splits)
qed

text \<open>
  \<open>registerPageAlias\<close> returns undefined and the catalog it was given, and throws nothing,
  when the alias spec does not parse, when the table of the components has nothing under
  the component of the parsed ID, its prototype included, and when the spec has a version
  of its own that is not among the versions of that component.
\<close>

lemma registerPageAlias_returns_undefined:
  "(parsePageId aliasSpec (src targetPage) = None \<longrightarrow>
      registerPageAlias cwd c aliasSpec targetPage = Inr (c, None)) \<and>
   (\<forall>s. parsePageId aliasSpec (src targetPage) = Some s \<and>
        getComponent c (component s) = Missing \<longrightarrow>
      registerPageAlias cwd c aliasSpec targetPage = Inr (c, None)) \<and>
   (\<forall>s cpt v cg m p.
        parsePageId aliasSpec (src targetPage) = Some s \<and>
        getComponent c (component s) = Own cpt \<and>
        PAGE_ID_RX aliasSpec = Some (Some v, cg, m, p) \<and>
        v \<notin> ve_version ` set (versions cpt) \<longrightarrow>
      registerPageAlias cwd c aliasSpec targetPage = Inr (c, None))"
proof (intro conjI allI impI)
  assume "parsePageId aliasSpec (src targetPage) = None"
  then show "registerPageAlias cwd c aliasSpec targetPage = Inr (c, None)"
    by (simp add: registerPageAlias_def)
next
  fix s
  assume "parsePageId aliasSpec (src targetPage) = Some s \<and>
        getComponent c (component s) = Missing"
  then show "registerPageAlias cwd c aliasSpec targetPage = Inr (c, None)"
    by (simp add: registerPageAlias_def)
next
  fix s cpt v cg m p
  assume a: "parsePageId aliasSpec (src targetPage) = Some s \<and>
        getComponent c (component s) = Own cpt \<and>
        PAGE_ID_RX aliasSpec = Some (Some v, cg, m, p) \<and>
        v \<notin> ve_version ` set (versions cpt)"
  then have v: "version s = Some v" "truthy (version s)"
    using parsePageId_explicit_version [of aliasSpec v cg m p "src targetPage" s] by auto
  have "find (\<lambda>candidate. Some (ve_version candidate) = version s) (versions cpt) = None"
    using a v by (auto simp: find_None_iff)
  then show "registerPageAlias cwd c aliasSpec targetPage = Inr (c, None)"
    using a v by (simp add: registerPageAlias_def)
qed

lemma registerPageAlias_undefined_examples:
  "\<not> isl (registerPageAlias ''/work'' example_catalog ''a:b:c:d'' intro_page) \<and>
   snd (projr (registerPageAlias ''/work'' example_catalog ''a:b:c:d'' intro_page)) = None \<and>
   \<not> isl (registerPageAlias ''/work'' example_catalog ''other::old-intro'' intro_page) \<and>
   snd (projr (registerPageAlias ''/work'' example_catalog ''other::old-intro'' intro_page)) =
     None \<and>
   \<not> isl (registerPageAlias ''/work'' example_catalog ''9.9@docs::old-intro'' intro_page) \<and>
   snd (projr (registerPageAlias ''/work'' example_catalog ''9.9@docs::old-intro''
                 intro_page)) = None"
  by code_simp

text \<open>
  C10. The claim: \<open>registerPageAlias\<close> returns undefined, and throws nothing, when the
  component of the parsed alias ID is not in the catalog. The code means to do so (\<open>if
  (!component) return\<close>) and misses the names that the table of the components inherits
  from \<open>Object.prototype\<close>. In the example catalog, whose one component is docs, the alias
  spec \<open>toString::old-intro\<close> parses, with the component \<open>toString\<close>; the catalog has no
  such component; \<open>getComponent\<close> returns the inherited function all the same, and the
  call ends in a TypeError where it reads the versions of that function.
\<close>

theorem registerPageAlias_inherited:
  "map_option component (parsePageId ''toString::old-intro'' (src intro_page)) =
     Some (Some ''toString'') \<and>
   map_option version (parsePageId ''toString::old-intro'' (src intro_page)) = Some None \<and>
   components example_catalog ''toString'' = None \<and>
   getComponent example_catalog (Some ''toString'') = Inherited \<and>
   isl (registerPageAlias ''/work'' example_catalog ''toString::old-intro'' intro_page) \<and>
   projl (registerPageAlias ''/work'' example_catalog ''toString::old-intro'' intro_page) =
     TypeError \<and>
   isl (registerPageAlias ''/work'' example_catalog ''2.0@toString::old-intro'' intro_page) \<and>
   projl (registerPageAlias ''/work'' example_catalog ''2.0@toString::old-intro'' intro_page) =
     TypeError"
  by code_simp

lemma parse_old_intro:
  "parsePageId ''2.0@docs::old-intro'' ctx =
     Some (old_intro_alias\<lparr>family := Some ''page''\<rparr>)"
  by (simp add: parsePageId_def PAGE_ID_RX_def version_alts_def qualifier_alts_def
      module_alts_def run_then_def truthy_def old_intro_alias_def)

lemma expand_old_intro:
  "expandPageSrc (old_intro_alias\<lparr>family := Some ''page''\<rparr>) ''alias'' =
   old_intro_alias\<lparr>basename := Some ''old-intro.adoc'', extname := Some ''.adoc'',
     stem := Some ''old-intro'', mediaType := Some ''text/asciidoc''\<rparr>"
  by (simp add: expandPageSrc_def old_intro_alias_def empty_src_def str_def path_extname_def
      path_basename_def path_basename_ext_def last_segment_def Let_def)

lemma generateId_old_intro:
  "generateId (old_intro_alias\<lparr>basename := b, extname := e, stem := st, mediaType := mt\<rparr>) =
     generateId old_intro_alias"
  "generateId old_intro_alias = ''$alias/2.0@docs:ROOT:old-intro.adoc''"
  "generateId (old_intro_alias\<lparr>family := Some ''page''\<rparr>) = ''$page/2.0@docs:ROOT:old-intro.adoc''"
  by (simp_all add: generateId_def old_intro_alias_def empty_src_def str_def)

lemma addFile_old_intro:
  assumes "family (src t) = Some ''page''" "files c (generateId old_intro_alias) = None"
  shows "\<exists>ot pb. addFile cwd c
           (File (path t) (Some ''text/asciidoc'')
              (old_intro_alias\<lparr>basename := Some ''old-intro.adoc'', extname := Some ''.adoc'',
                 stem := Some ''old-intro'', mediaType := Some ''text/asciidoc''\<rparr>)
              None None (Some t) None) =
         Inr (c\<lparr>file_table := file_table c @ [(generateId old_intro_alias,
           File (path t) (Some ''text/asciidoc'')
              (old_intro_alias\<lparr>basename := Some ''old-intro.adoc'', extname := Some ''.adoc'',
                 stem := Some ''old-intro'', mediaType := Some ''text/asciidoc''\<rparr>)
              (Some ot) (Some pb) (Some t) None)]\<rparr>)"
proof -
  let ?s = "old_intro_alias\<lparr>basename := Some ''old-intro.adoc'', extname := Some ''.adoc'',
                 stem := Some ''old-intro'', mediaType := Some ''text/asciidoc''\<rparr>"
  let ?f = "File (path t) (Some ''text/asciidoc'') ?s None None (Some t) None"
  have af: "actingFamily ?f = Inr (Some ''page'')"
    using assms(1) by (simp add: actingFamily_def old_intro_alias_def empty_src_def)
  obtain ot where ot: "computeOut cwd ?s (Some ''page'') (htmlUrlExtensionStyle c) = Inr ot"
    using computeOut_Inr [of ?s cwd "Some ''page''" "htmlUrlExtensionStyle c"]
    by (auto simp: old_intro_alias_def empty_src_def)
  obtain pb where pb: "computePub ?s (Some ot) (Some ''page'') (htmlUrlExtensionStyle c) = Inr pb"
    using computePub_Some_Inr by blast
  have nb: "has_substr ''/_'' (CHR ''/'' # str (relative old_intro_alias)) = False"
    by (simp add: old_intro_alias_def empty_src_def str_def)
  have "addFile cwd c ?f = Inr (c\<lparr>file_table := file_table c @ [(generateId old_intro_alias,
           File (path t) (Some ''text/asciidoc'') ?s (Some ot) (Some pb) (Some t) None)]\<rparr>)"
    unfolding addFile_def Let_def
    using assms(2) af ot pb
    by (simp add: generateId_old_intro(1) nb del: has_substr.simps)
  then show ?thesis by blast
qed

text \<open>
  C3 (as amended). In a catalog that holds the page (docs, 2.0, ROOT, page, intro.adoc),
  in which version 2.0 of the component docs is registered and no file has the page ID or
  the alias ID of \<open>old-intro.adoc\<close>, registering the alias \<open>2.0@docs::old-intro\<close> for that
  page adds a file that \<open>getById\<close> returns for the alias ID (docs, 2.0, ROOT, alias,
  old-intro.adoc) and whose \<open>rel\<close> is the page. A second registration with the same spec
  and target fails in \<open>addFile\<close> with the duplicate file error.
\<close>

theorem registerPageAlias_old_intro:
  assumes "files c (generateId (src thatPage)) = Some thatPage"
    and "component (src thatPage) = Some ''docs''" "version (src thatPage) = Some ''2.0''"
    and "module (src thatPage) = Some ''ROOT''" "family (src thatPage) = Some ''page''"
    and "relative (src thatPage) = Some ''intro.adoc''"
    and "getComponent c (Some ''docs'') = Own cpt"
    and "''2.0'' \<in> ve_version ` set (versions cpt)"
    and "getById c (old_intro_alias\<lparr>family := Some ''page''\<rparr>) = None"
    and "getById c old_intro_alias = None"
  shows "\<exists>c' f. registerPageAlias cwd c ''2.0@docs::old-intro'' thatPage = Inr (c', Some f) \<and>
           getById c' old_intro_alias = Some f \<and> rel f = Some thatPage \<and>
           family (src f) = Some ''alias'' \<and>
           registerPageAlias cwd c' ''2.0@docs::old-intro'' thatPage = Inl DuplicateFile"
proof -
  let ?s = "old_intro_alias\<lparr>basename := Some ''old-intro.adoc'', extname := Some ''.adoc'',
                 stem := Some ''old-intro'', mediaType := Some ''text/asciidoc''\<rparr>"
  let ?p = "old_intro_alias\<lparr>family := Some ''page''\<rparr>"
  have comp: "component ?p = Some ''docs''" "version ?p = Some ''2.0''" "mediaType ?s = Some ''text/asciidoc''"
    by (simp_all add: old_intro_alias_def empty_src_def)
  have tv: "truthy (Some ''2.0'')" by (simp add: truthy_def)
  have fnd: "find (\<lambda>candidate. Some (ve_version candidate) = Some ''2.0'') (versions cpt) \<noteq> None"
    using assms(8) by (auto simp: find_None_iff)
  have none: "files c (generateId old_intro_alias) = None"
    using assms(10) by (simp add: getById_def)
  obtain ot pb where add: "addFile cwd c
           (File (path thatPage) (Some ''text/asciidoc'') ?s None None (Some thatPage) None) =
         Inr (c\<lparr>file_table := file_table c @ [(generateId old_intro_alias,
           File (path thatPage) (Some ''text/asciidoc'') ?s (Some ot) (Some pb) (Some thatPage) None)]\<rparr>)"
    using addFile_old_intro [OF assms(5) none, of cwd] by blast
  let ?f = "File (path thatPage) (Some ''text/asciidoc'') ?s (Some ot) (Some pb) (Some thatPage) None"
  let ?c' = "c\<lparr>file_table := file_table c @ [(generateId old_intro_alias, ?f)]\<rparr>"
  have fc': "files ?c' = (files c)(generateId old_intro_alias \<mapsto> ?f)"
    using none by (rule files_add)
  have first: "registerPageAlias cwd c ''2.0@docs::old-intro'' thatPage = Inr (?c', Some ?f)"
    unfolding registerPageAlias_def Let_def
    using assms(7,9) fnd add
    by (simp add: parse_old_intro comp tv expand_old_intro generateId_old_intro(1) fc')
  have get: "getById ?c' old_intro_alias = Some ?f"
    by (simp add: getById_def fc')
  have comp': "getComponent ?c' (Some ''docs'') = Own cpt"
    using assms(7) by (simp add: getComponent_def)
  have page': "getById ?c' ?p = None"
    using assms(9) unfolding getById_def fc' by (simp add: generateId_old_intro)
  have dup: "addFile cwd ?c'
           (File (path thatPage) (Some ''text/asciidoc'') ?s None None (Some thatPage) None) =
         Inl DuplicateFile"
    unfolding addFile_def Let_def by (simp add: generateId_old_intro(1) fc')
  have second: "registerPageAlias cwd ?c' ''2.0@docs::old-intro'' thatPage = Inl DuplicateFile"
    unfolding registerPageAlias_def Let_def
    using comp' page' fnd dup
    by (simp add: parse_old_intro comp tv expand_old_intro generateId_old_intro(1))
  have "rel ?f = Some thatPage" "family (src ?f) = Some ''alias''"
    by (simp_all add: old_intro_alias_def empty_src_def)
  then show ?thesis using first get second by blast
qed

theorem registerPageAlias_old_intro_witness:
  "\<exists>c' f. registerPageAlias ''/work'' example_catalog ''2.0@docs::old-intro'' intro_page =
             Inr (c', Some f) \<and>
           getById c' old_intro_alias = Some f \<and> rel f = Some intro_page \<and>
           family (src f) = Some ''alias'' \<and>
           registerPageAlias ''/work'' c' ''2.0@docs::old-intro'' intro_page = Inl DuplicateFile"
proof -
  have h1: "files example_catalog (generateId (src intro_page)) = Some intro_page"
    by code_simp
  have h2: "component (src intro_page) = Some ''docs''" "version (src intro_page) = Some ''2.0''"
    "module (src intro_page) = Some ''ROOT''" "family (src intro_page) = Some ''page''"
    "relative (src intro_page) = Some ''intro.adoc''"
    by (simp_all add: intro_page_def intro_src_def)
  have h3: "getComponent example_catalog (Some ''docs'') = Own docs_component"
    by code_simp
  have h4: "''2.0'' \<in> ve_version ` set (versions docs_component)"
    by (simp add: docs_component_def)
  have h5: "getById example_catalog (old_intro_alias\<lparr>family := Some ''page''\<rparr>) = None"
    by code_simp
  have h6: "getById example_catalog old_intro_alias = None"
    by code_simp
  show ?thesis
    by (rule registerPageAlias_old_intro [OF h1 h2 h3 h4 h5 h6])
qed

text \<open>The claim as stated fails twice. The second registration does not fail with
  AliasConflict: the lookup that guards it asks for the page ID of the alias, where the
  catalog holds nothing, and the duplicate is found by \<open>addFile\<close>. And in a catalog that
  holds the page but no component docs, the first registration returns undefined and
  adds nothing.\<close>

theorem registerPageAlias_old_intro_counterexample:
  "isl (registerPageAlias ''/work''
          (fst (projr (registerPageAlias ''/work'' example_catalog ''2.0@docs::old-intro''
                         intro_page)))
          ''2.0@docs::old-intro'' intro_page) \<and>
   projl (registerPageAlias ''/work''
          (fst (projr (registerPageAlias ''/work'' example_catalog ''2.0@docs::old-intro''
                         intro_page)))
          ''2.0@docs::old-intro'' intro_page) = DuplicateFile \<and>
   getById page_only_catalog intro_src = Some intro_page \<and>
   \<not> isl (registerPageAlias ''/work'' page_only_catalog ''2.0@docs::old-intro'' intro_page) \<and>
   snd (projr (registerPageAlias ''/work'' page_only_catalog ''2.0@docs::old-intro''
                 intro_page)) = None \<and>
   getById (fst (projr (registerPageAlias ''/work'' page_only_catalog ''2.0@docs::old-intro''
                          intro_page))) old_intro_alias = None"
  by code_simp

section \<open>Properties of the component versions\<close>

lemma versionCompare_order: "version_order versionCompare"
  unfolding version_order_def versionCompare_def by auto

lemma findInsertIdx_duplicate:
  "newest_first vc (map ve_version vs) \<Longrightarrow> v \<in> ve_version ` set vs \<Longrightarrow>
   findInsertIdx vc v vs = Inl DuplicateVersion"
proof (induction vs)
  case Nil
  then show ?case by simp
next
  case (Cons c cs)
  show ?case
  proof (cases "ve_version c = v")
    case True
    then show ?thesis by simp
  next
    case False
    then have in_cs: "v \<in> ve_version ` set cs" using Cons.prems(2) by auto
    then have "vc (ve_version c) v \<le> 0"
      using Cons.prems(1) by (auto simp: newest_first_def)
    moreover have "findInsertIdx vc v cs = Inl DuplicateVersion"
      using Cons.IH Cons.prems(1) in_cs by (simp add: newest_first_def)
    ultimately show ?thesis using False by simp
  qed
qed


lemma findInsertIdx_sorted:
  assumes "version_order vc"
  shows "newest_first vc (map ve_version vs) \<Longrightarrow> findInsertIdx vc (ve_version e) vs = Inr r \<Longrightarrow>
     newest_first vc (map ve_version (insert_at r e vs)) \<and> set (insert_at r e vs) = insert e (set vs) \<and>
     (vs \<noteq> [] \<longrightarrow> r \<noteq> Some 0 \<longrightarrow> hd (insert_at r e vs) = hd vs)"
proof (induction vs arbitrary: r)
  case Nil
  then show ?case by (auto simp: insert_at_def newest_first_def split: option.splits)
next
  case (Cons c cs)
  have anti: "\<And>a b. (vc a b > 0) = (vc b a < 0)"
    and trans: "\<And>a b c. vc a b \<le> 0 \<Longrightarrow> vc b c \<le> 0 \<Longrightarrow> vc a c \<le> 0"
    using assms unfolding version_order_def by blast+
  have ne: "ve_version c \<noteq> ve_version e" using Cons.prems(2) by (auto split: if_splits)
  have sorted_cs: "newest_first vc (map ve_version cs)"
    and c_first: "\<forall>y \<in> set cs. vc (ve_version c) (ve_version y) \<le> 0"
    using Cons.prems(1) by (auto simp: newest_first_def)
  show ?case
  proof (cases "vc (ve_version c) (ve_version e) > 0")
    case True
    then have r: "r = Some 0" using Cons.prems(2) ne by simp
    have "vc (ve_version e) (ve_version c) \<le> 0" using True anti [of "ve_version c" "ve_version e"] by simp
    then have "\<forall>y \<in> set (c # cs). vc (ve_version e) (ve_version y) \<le> 0"
      using c_first trans by auto
    then show ?thesis using r Cons.prems(1) by (auto simp: insert_at_def newest_first_def)
  next
    case False
    then obtain r' where r': "findInsertIdx vc (ve_version e) cs = Inr r'"
      and r: "r = map_option Suc r'"
      using Cons.prems(2) ne by (auto split: sum.splits option.splits)
    have ih: "newest_first vc (map ve_version (insert_at r' e cs))"
      "set (insert_at r' e cs) = insert e (set cs)"
      using Cons.IH [OF sorted_cs r'] by auto
    have sp: "insert_at r e (c # cs) = c # insert_at r' e cs"
      using r by (auto simp: insert_at_def split: option.splits)
    have "\<forall>y \<in> set (insert_at r' e cs). vc (ve_version c) (ve_version y) \<le> 0"
      using ih(2) c_first False by auto
    then show ?thesis using sp ih by (auto simp: newest_first_def)
  qed
qed


lemma addComponentVersion_cases:
  assumes "addComponentVersion vc cwd c name' v title spec = Inr c'"
  shows "\<exists>u. startPageUrl cwd c name' v spec = Inr u \<and>
     (case components c name' of
        None \<Rightarrow> c' = c\<lparr>components := (components c)(name' \<mapsto>
                   \<lparr>comp_name = name', comp_title = title, comp_url = u,
                    versions = [\<lparr>ve_title = title, ve_version = v, ve_url = u\<rparr>]\<rparr>)\<rparr>
      | Some cpt \<Rightarrow>
          (\<exists>r. findInsertIdx vc v (versions cpt) = Inr r \<and>
             c' = c\<lparr>components := (components c)(name' \<mapsto>
                    (if r = Some 0
                     then cpt\<lparr>versions := insert_at r \<lparr>ve_title = title, ve_version = v, ve_url = u\<rparr>
                               (versions cpt), comp_title := title, comp_url := u\<rparr>
                     else cpt\<lparr>versions := insert_at r \<lparr>ve_title = title, ve_version = v, ve_url = u\<rparr>
                               (versions cpt)\<rparr>))\<rparr>))"
proof -
  obtain u where u: "startPageUrl cwd c name' v spec = Inr u"
    using assms by (cases "startPageUrl cwd c name' v spec") (auto simp: addComponentVersion_def)
  show ?thesis
  proof (cases "components c name'")
    case None
    then show ?thesis using assms u
      by (auto simp: addComponentVersion_def Let_def read_property_def split: if_splits)
  next
    case (Some cpt)
    then obtain r where r: "findInsertIdx vc v (versions cpt) = Inr r"
      using assms u
      by (cases "findInsertIdx vc v (versions cpt)")
         (auto simp: addComponentVersion_def Let_def read_property_def)
    show ?thesis
      using assms u Some r
      by (cases r)
         (auto simp: addComponentVersion_def Let_def insert_at_def read_property_def
               split: if_splits)
  qed
qed

lemma addComponentVersion_step:
  assumes vo: "version_order vc"
    and inv: "\<forall>n cpt. components c n = Some cpt \<longrightarrow> latest_first vc cpt"
    and add: "addComponentVersion vc cwd c name' v title spec = Inr c'"
  shows "\<forall>n cpt. components c' n = Some cpt \<longrightarrow> latest_first vc cpt"
proof -
  obtain u where u: "startPageUrl cwd c name' v spec = Inr u"
    and cs: "(case components c name' of
        None \<Rightarrow> c' = c\<lparr>components := (components c)(name' \<mapsto>
                   \<lparr>comp_name = name', comp_title = title, comp_url = u,
                    versions = [\<lparr>ve_title = title, ve_version = v, ve_url = u\<rparr>]\<rparr>)\<rparr>
      | Some cpt \<Rightarrow>
          (\<exists>r. findInsertIdx vc v (versions cpt) = Inr r \<and>
             c' = c\<lparr>components := (components c)(name' \<mapsto>
                    (if r = Some 0
                     then cpt\<lparr>versions := insert_at r \<lparr>ve_title = title, ve_version = v, ve_url = u\<rparr>
                               (versions cpt), comp_title := title, comp_url := u\<rparr>
                     else cpt\<lparr>versions := insert_at r \<lparr>ve_title = title, ve_version = v, ve_url = u\<rparr>
                               (versions cpt)\<rparr>))\<rparr>))"
    using addComponentVersion_cases [OF add] by blast
  let ?e = "\<lparr>ve_title = title, ve_version = v, ve_url = u\<rparr>"
  show ?thesis
  proof (cases "components c name'")
    case None
    then have c': "c' = c\<lparr>components := (components c)(name' \<mapsto>
                   \<lparr>comp_name = name', comp_title = title, comp_url = u, versions = [?e]\<rparr>)\<rparr>"
      using cs by simp
    have "latest_first vc \<lparr>comp_name = name', comp_title = title, comp_url = u, versions = [?e]\<rparr>"
      by (simp add: latest_first_def newest_first_def latestVersion_def)
    then show ?thesis using inv c' by auto
  next
    case (Some cpt)
    then obtain r where r: "findInsertIdx vc (ve_version ?e) (versions cpt) = Inr r"
      and c': "c' = c\<lparr>components := (components c)(name' \<mapsto>
                    (if r = Some 0
                     then cpt\<lparr>versions := insert_at r ?e (versions cpt), comp_title := title,
                              comp_url := u\<rparr>
                     else cpt\<lparr>versions := insert_at r ?e (versions cpt)\<rparr>))\<rparr>"
      using cs by auto
    have old: "latest_first vc cpt" using inv Some by blast
    then have ne: "versions cpt \<noteq> []" and srt: "newest_first vc (map ve_version (versions cpt))"
      by (auto simp: latest_first_def)
    have ins: "newest_first vc (map ve_version (insert_at r ?e (versions cpt)))"
      "set (insert_at r ?e (versions cpt)) = insert ?e (set (versions cpt))"
      "r \<noteq> Some 0 \<longrightarrow> hd (insert_at r ?e (versions cpt)) = hd (versions cpt)"
      using findInsertIdx_sorted [OF vo srt r] ne by auto
    have nonempty: "insert_at r ?e (versions cpt) \<noteq> []"
      using ins(2) by auto
    have "latest_first vc (if r = Some 0
                     then cpt\<lparr>versions := insert_at r ?e (versions cpt), comp_title := title,
                              comp_url := u\<rparr>
                     else cpt\<lparr>versions := insert_at r ?e (versions cpt)\<rparr>)"
    proof (cases "r = Some 0")
      case True
      then have "hd (insert_at r ?e (versions cpt)) = ?e" by (simp add: insert_at_def)
      then show ?thesis using True ins(1) nonempty
        by (cases "insert_at r ?e (versions cpt)") (auto simp: latest_first_def latestVersion_def)
    next
      case False
      then show ?thesis using ins old nonempty
        by (cases "insert_at r ?e (versions cpt)") (auto simp: latest_first_def latestVersion_def)
    qed
    then show ?thesis using inv c' by auto
  qed
qed

lemma addComponentVersions_inv:
  assumes vo: "version_order vc"
  shows "(\<forall>n cpt. components c n = Some cpt \<longrightarrow> latest_first vc cpt) \<Longrightarrow>
     addComponentVersions vc cwd c calls = Inr c' \<Longrightarrow>
     (\<forall>n cpt. components c' n = Some cpt \<longrightarrow> latest_first vc cpt)"
proof (induction calls arbitrary: c)
  case Nil
  then show ?case by simp
next
  case (Cons call calls)
  obtain name' v title spec where call: "call = (name', v, title, spec)"
    by (cases call) auto
  obtain c1 where c1: "addComponentVersion vc cwd c name' v title spec = Inr c1"
    and rest: "addComponentVersions vc cwd c1 calls = Inr c'"
    using Cons.prems(2) call
    by (cases "addComponentVersion vc cwd c name' v title spec") auto
  have "\<forall>n cpt. components c1 n = Some cpt \<longrightarrow> latest_first vc cpt"
    using addComponentVersion_step [OF vo Cons.prems(1) c1] .
  then show ?case using Cons.IH rest by blast
qed

lemma addComponentVersion_duplicate:
  assumes "components c name' = Some cpt" "latest_first vc cpt"
    and "v \<in> ve_version ` set (versions cpt)"
  shows "isl (addComponentVersion vc cwd c name' v title spec)"
    and "startPageUrl cwd c name' v spec = Inr u \<Longrightarrow>
         addComponentVersion vc cwd c name' v title spec = Inl DuplicateVersion"
proof -
  have dup: "findInsertIdx vc v (versions cpt) = Inl DuplicateVersion"
    using assms(2,3) by (intro findInsertIdx_duplicate) (auto simp: latest_first_def)
  show "isl (addComponentVersion vc cwd c name' v title spec)"
    using assms(1) dup
    by (cases "startPageUrl cwd c name' v spec")
       (auto simp: addComponentVersion_def Let_def read_property_def)
  show "startPageUrl cwd c name' v spec = Inr u \<Longrightarrow>
         addComponentVersion vc cwd c name' v title spec = Inl DuplicateVersion"
    using assms(1) dup by (auto simp: addComponentVersion_def Let_def read_property_def)
qed

lemma parse_index:
  "parsePageId ''index.adoc'' ctx =
     Some (empty_src\<lparr>component := component ctx, version := version ctx, module := module ctx,
             family := Some ''page'', relative := Some ''index.adoc''\<rparr>)"
  by (simp add: parsePageId_def PAGE_ID_RX_def version_alts_def qualifier_alts_def
      module_alts_def run_then_def truthy_def)

lemma expand_index:
  "expandPageSrc (empty_src\<lparr>component := Some ''docs'', version := Some v,
        module := Some ''ROOT'', relative := Some ''index.adoc''\<rparr>) ''page'' =
      \<lparr>component = Some ''docs'', version = Some v, module = Some ''ROOT'',
       family = Some ''page'', relative = Some ''index.adoc'', basename = Some ''index.adoc'',
       extname = Some ''.adoc'', stem = Some ''index'', mediaType = Some ''text/asciidoc'',
       moduleRootPath = None\<rparr>"
  by (simp add: expandPageSrc_def empty_src_def str_def path_extname_def path_basename_def
        path_basename_ext_def last_segment_def Let_def)

lemma resolve_index_none:
  assumes "files c = Map.empty" "v \<noteq> []"
  shows "resolvePage c ''index.adoc''
      (empty_src\<lparr>component := Some ''docs'', version := Some v, module := Some ''ROOT''\<rparr>) = Inr None"
  using assms by (simp add: resolvePage_def parse_index getById_def empty_src_def truthy_def)


lemma index_url:
  assumes "v \<in> {''1.0'', ''2.0'', ''1.5'', ''3.0''}"
  shows "\<exists>ot pb. computeOut cwd \<lparr>component = Some ''docs'', version = Some v, module = Some ''ROOT'',
       family = Some ''page'', relative = Some ''index.adoc'', basename = Some ''index.adoc'',
       extname = Some ''.adoc'', stem = Some ''index'', mediaType = Some ''text/asciidoc'',
       moduleRootPath = None\<rparr> (Some ''page'') ''default'' = Inr ot \<and>
     computePub \<lparr>component = Some ''docs'', version = Some v, module = Some ''ROOT'',
       family = Some ''page'', relative = Some ''index.adoc'', basename = Some ''index.adoc'',
       extname = Some ''.adoc'', stem = Some ''index'', mediaType = Some ''text/asciidoc'',
       moduleRootPath = None\<rparr> (Some ot) (Some ''page'') ''default'' = Inr pb \<and>
     url pb = ''/docs/'' @ v @ ''/index.html''"
proof -
  consider "v = ''1.0''" | "v = ''2.0''" | "v = ''1.5''" | "v = ''3.0''"
    using assms by auto
  then show ?thesis
  proof cases
    case 1
    then show ?thesis by (simp add: computeOut_def path_eval computePub_def)
  next
    case 2
    then show ?thesis by (simp add: computeOut_def path_eval computePub_def)
  next
    case 3
    then show ?thesis by (simp add: computeOut_def path_eval computePub_def)
  next
    case 4
    then show ?thesis by (simp add: computeOut_def path_eval computePub_def)
  qed
qed

lemma startPageUrl_synth:
  assumes "files c = Map.empty" "htmlUrlExtensionStyle c = ''default''"
    and "v \<in> {''1.0'', ''2.0'', ''1.5'', ''3.0''}"
  shows "startPageUrl cwd c ''docs'' v None = Inr (''/docs/'' @ v @ ''/index.html'')"
proof -
  have v: "v \<noteq> []" using assms(3) by auto
  obtain ot pb where ot: "computeOut cwd \<lparr>component = Some ''docs'', version = Some v, module = Some ''ROOT'',
       family = Some ''page'', relative = Some ''index.adoc'', basename = Some ''index.adoc'',
       extname = Some ''.adoc'', stem = Some ''index'', mediaType = Some ''text/asciidoc'',
       moduleRootPath = None\<rparr> (Some ''page'') ''default'' = Inr ot"
    and pb: "computePub \<lparr>component = Some ''docs'', version = Some v, module = Some ''ROOT'',
       family = Some ''page'', relative = Some ''index.adoc'', basename = Some ''index.adoc'',
       extname = Some ''.adoc'', stem = Some ''index'', mediaType = Some ''text/asciidoc'',
       moduleRootPath = None\<rparr> (Some ot) (Some ''page'') ''default'' = Inr pb"
    and u: "url pb = ''/docs/'' @ v @ ''/index.html''"
    using index_url [OF assms(3), of cwd] by blast
  have ex: "expandPageSrc (empty_src\<lparr>component := Some ''docs'', version := Some v,
        module := Some ''ROOT''\<rparr>\<lparr>relative := Some ''index.adoc''\<rparr>) ''page'' =
      \<lparr>component = Some ''docs'', version = Some v, module = Some ''ROOT'',
       family = Some ''page'', relative = Some ''index.adoc'', basename = Some ''index.adoc'',
       extname = Some ''.adoc'', stem = Some ''index'', mediaType = Some ''text/asciidoc'',
       moduleRootPath = None\<rparr>"
    using expand_index [of v] by simp
  show ?thesis
    unfolding startPageUrl_def Let_def
    by (simp only: resolve_index_none [OF assms(1) v] ex assms(2) ot pb u truthy_def
        option.case sum.case if_False src.select_convs)
qed

lemma add_four_versions:
  assumes vo: "version_order vc"
    and ord: "vc ''3.0'' ''2.0'' < 0" "vc ''2.0'' ''1.5'' < 0" "vc ''1.5'' ''1.0'' < 0"
    and c: "components c = Map.empty" "files c = Map.empty" "htmlUrlExtensionStyle c = ''default''"
  shows "\<exists>c' cpt. addComponentVersions vc cwd c
           [(''docs'', ''1.0'', t1, None), (''docs'', ''2.0'', t2, None),
            (''docs'', ''1.5'', t3, None), (''docs'', ''3.0'', t4, None)] = Inr c' \<and>
         components c' ''docs'' = Some cpt \<and>
         map ve_version (versions cpt) = [''3.0'', ''2.0'', ''1.5'', ''1.0''] \<and>
         comp_url cpt = ''/docs/3.0/index.html'' \<and>
         map_option ve_url (latestVersion cpt) = Some ''/docs/3.0/index.html''"
proof -
  have anti: "\<And>a b. (vc a b > 0) = (vc b a < 0)"
    and trans: "\<And>a b c. vc a b \<le> 0 \<Longrightarrow> vc b c \<le> 0 \<Longrightarrow> vc a c \<le> 0"
    using vo unfolding version_order_def by blast+
  have f0: "\<not> vc ''2.0'' ''1.5'' > 0" using ord(2) by simp
  have f1: "vc ''2.0'' ''3.0'' > 0" "vc ''1.0'' ''1.5'' > 0"
    using ord(1,3) anti by simp_all
  have "vc ''1.0'' ''2.0'' > 0"
  proof (rule ccontr)
    assume "\<not> vc ''1.0'' ''2.0'' > 0"
    then have "vc ''1.0'' ''2.0'' \<le> 0" by simp
    moreover have "vc ''2.0'' ''1.5'' \<le> 0" using ord by simp
    ultimately have "vc ''1.0'' ''1.5'' \<le> 0" by (rule trans)
    then show False using f1(2) by simp
  qed
  note facts = f0 f1 this
  let ?e1 = "\<lparr>ve_title = t1, ve_version = ''1.0'', ve_url = ''/docs/1.0/index.html''\<rparr>"
  let ?e2 = "\<lparr>ve_title = t2, ve_version = ''2.0'', ve_url = ''/docs/2.0/index.html''\<rparr>"
  let ?e3 = "\<lparr>ve_title = t3, ve_version = ''1.5'', ve_url = ''/docs/1.5/index.html''\<rparr>"
  let ?e4 = "\<lparr>ve_title = t4, ve_version = ''3.0'', ve_url = ''/docs/3.0/index.html''\<rparr>"
  let ?c1 = "c\<lparr>components := (components c)(''docs'' \<mapsto>
      \<lparr>comp_name = ''docs'', comp_title = t1, comp_url = ''/docs/1.0/index.html'', versions = [?e1]\<rparr>)\<rparr>"
  let ?c2 = "c\<lparr>components := (components c)(''docs'' \<mapsto>
      \<lparr>comp_name = ''docs'', comp_title = t2, comp_url = ''/docs/2.0/index.html'',
       versions = [?e2, ?e1]\<rparr>)\<rparr>"
  let ?c3 = "c\<lparr>components := (components c)(''docs'' \<mapsto>
      \<lparr>comp_name = ''docs'', comp_title = t2, comp_url = ''/docs/2.0/index.html'',
       versions = [?e2, ?e3, ?e1]\<rparr>)\<rparr>"
  let ?c4 = "c\<lparr>components := (components c)(''docs'' \<mapsto>
      \<lparr>comp_name = ''docs'', comp_title = t4, comp_url = ''/docs/3.0/index.html'',
       versions = [?e4, ?e2, ?e3, ?e1]\<rparr>)\<rparr>"
  have u: "\<And>c' v. files c' = Map.empty \<Longrightarrow> htmlUrlExtensionStyle c' = ''default'' \<Longrightarrow>
      v \<in> {''1.0'', ''2.0'', ''1.5'', ''3.0''} \<Longrightarrow>
      startPageUrl cwd c' ''docs'' v None = Inr (''/docs/'' @ v @ ''/index.html'')"
    by (rule startPageUrl_synth)
  have s1: "addComponentVersion vc cwd c ''docs'' ''1.0'' t1 None = Inr ?c1"
    using c by (simp add: addComponentVersion_def u read_property_def Object_prototype_def)
  have s2: "addComponentVersion vc cwd ?c1 ''docs'' ''2.0'' t2 None = Inr ?c2"
    using c facts
    by (simp add: addComponentVersion_def u read_property_def Object_prototype_def
        files_components)
  have s3: "addComponentVersion vc cwd ?c2 ''docs'' ''1.5'' t3 None = Inr ?c3"
    using c facts
    by (simp add: addComponentVersion_def u read_property_def Object_prototype_def
        files_components)
  have s4: "addComponentVersion vc cwd ?c3 ''docs'' ''3.0'' t4 None = Inr ?c4"
    using c facts
    by (simp add: addComponentVersion_def u read_property_def Object_prototype_def
        files_components)
  have "addComponentVersions vc cwd c
           [(''docs'', ''1.0'', t1, None), (''docs'', ''2.0'', t2, None),
            (''docs'', ''1.5'', t3, None), (''docs'', ''3.0'', t4, None)] = Inr ?c4"
    by (simp add: s1 s2 s3 s4)
  then show ?thesis by (simp add: latestVersion_def)
qed

lemma addFile_components:
  "addFile cwd c f = Inr c' \<Longrightarrow>
   components c' = components c \<and> htmlUrlExtensionStyle c' = htmlUrlExtensionStyle c"
  unfolding addFile_def Let_def
  by (auto split: if_splits sum.splits prod.splits)

text \<open>
  C5 (as amended). Let \<open>vc\<close> be a version order. Whatever calls of
  \<open>addComponentVersion\<close> are made, from a new catalog or from any catalog whose components
  list their versions newest first, every component of the catalog keeps its versions
  sorted from the newest to the oldest by \<open>vc\<close>, \<open>latestVersion\<close> is the first of them, and
  the URL of the component is the URL of that version; adding files changes no component.
  When \<open>vc\<close> puts 3.0 before 2.0 before 1.5 before 1.0, adding the versions 1.0, 2.0, 1.5,
  3.0 of docs to a new catalog of the default style gives the versions 3.0, 2.0, 1.5, 1.0
  and the component URL \<open>/docs/3.0/index.html\<close>, the start page URL of 3.0. Adding a version
  that the component already has always fails. The call first finds the URL of the start
  page (\<open>startPageUrl\<close>): it fails with DuplicateVersion when that step returns a URL, and
  with the error of that step when it throws (an invalid page ID, a start page that is not
  found, or a TypeError where the page found has no \<open>pub\<close>).
\<close>

theorem addComponentVersion_order:
  assumes "version_order vc"
  shows "(\<forall>c calls c'.
            (\<forall>n cpt. components c n = Some cpt \<longrightarrow> latest_first vc cpt) \<and>
            addComponentVersions vc cwd c calls = Inr c' \<longrightarrow>
            (\<forall>n cpt. components c' n = Some cpt \<longrightarrow> latest_first vc cpt)) \<and>
         (\<forall>pb calls c'.
            addComponentVersions vc cwd (new_ContentCatalog pb) calls = Inr c' \<longrightarrow>
            (\<forall>n cpt. components c' n = Some cpt \<longrightarrow> latest_first vc cpt)) \<and>
         (\<forall>c f c'. addFile cwd c f = Inr c' \<longrightarrow> components c' = components c) \<and>
         (vc ''3.0'' ''2.0'' < 0 \<and> vc ''2.0'' ''1.5'' < 0 \<and> vc ''1.5'' ''1.0'' < 0 \<longrightarrow>
            (\<forall>pb t1 t2 t3 t4. urls_htmlExtensionStyle pb = None \<longrightarrow>
               (\<exists>c' cpt. addComponentVersions vc cwd (new_ContentCatalog pb)
                    [(''docs'', ''1.0'', t1, None), (''docs'', ''2.0'', t2, None),
                     (''docs'', ''1.5'', t3, None), (''docs'', ''3.0'', t4, None)] = Inr c' \<and>
                  components c' ''docs'' = Some cpt \<and>
                  map ve_version (versions cpt) = [''3.0'', ''2.0'', ''1.5'', ''1.0''] \<and>
                  comp_url cpt = ''/docs/3.0/index.html'' \<and>
                  map_option ve_url (latestVersion cpt) = Some ''/docs/3.0/index.html''))) \<and>
         (\<forall>c name' cpt v title spec.
            components c name' = Some cpt \<and> latest_first vc cpt \<and>
            v \<in> ve_version ` set (versions cpt) \<longrightarrow>
            isl (addComponentVersion vc cwd c name' v title spec) \<and>
            (\<forall>u. startPageUrl cwd c name' v spec = Inr u \<longrightarrow>
               addComponentVersion vc cwd c name' v title spec = Inl DuplicateVersion) \<and>
            (\<forall>e. startPageUrl cwd c name' v spec = Inl e \<longrightarrow>
               addComponentVersion vc cwd c name' v title spec = Inl e))"
proof (intro conjI)
  show "\<forall>c calls c'.
            (\<forall>n cpt. components c n = Some cpt \<longrightarrow> latest_first vc cpt) \<and>
            addComponentVersions vc cwd c calls = Inr c' \<longrightarrow>
            (\<forall>n cpt. components c' n = Some cpt \<longrightarrow> latest_first vc cpt)"
  proof (intro allI impI)
    fix c c' :: catalog and calls n cpt
    assume a: "(\<forall>n cpt. components c n = Some cpt \<longrightarrow> latest_first vc cpt) \<and>
            addComponentVersions vc cwd c calls = Inr c'"
      and b: "components c' n = Some cpt"
    from a have a1: "\<forall>n cpt. components c n = Some cpt \<longrightarrow> latest_first vc cpt"
      and a2: "addComponentVersions vc cwd c calls = Inr c'" by simp_all
    show "latest_first vc cpt"
      using addComponentVersions_inv [OF assms a1 a2] b by simp
  qed
  show "\<forall>pb calls c'.
            addComponentVersions vc cwd (new_ContentCatalog pb) calls = Inr c' \<longrightarrow>
            (\<forall>n cpt. components c' n = Some cpt \<longrightarrow> latest_first vc cpt)"
  proof (intro allI impI)
    fix pb calls c' n cpt
    assume a: "addComponentVersions vc cwd (new_ContentCatalog pb) calls = Inr c'"
      and b: "components c' n = Some cpt"
    have "\<forall>n cpt. components (new_ContentCatalog pb) n = Some cpt \<longrightarrow> latest_first vc cpt"
      by (simp add: new_ContentCatalog_def)
    then show "latest_first vc cpt"
      using addComponentVersions_inv [OF assms _ a] b by simp
  qed
  show "\<forall>c f c'. addFile cwd c f = Inr c' \<longrightarrow> components c' = components c"
    using addFile_components by blast
  show "vc ''3.0'' ''2.0'' < 0 \<and> vc ''2.0'' ''1.5'' < 0 \<and> vc ''1.5'' ''1.0'' < 0 \<longrightarrow>
            (\<forall>pb t1 t2 t3 t4. urls_htmlExtensionStyle pb = None \<longrightarrow>
               (\<exists>c' cpt. addComponentVersions vc cwd (new_ContentCatalog pb)
                    [(''docs'', ''1.0'', t1, None), (''docs'', ''2.0'', t2, None),
                     (''docs'', ''1.5'', t3, None), (''docs'', ''3.0'', t4, None)] = Inr c' \<and>
                  components c' ''docs'' = Some cpt \<and>
                  map ve_version (versions cpt) = [''3.0'', ''2.0'', ''1.5'', ''1.0''] \<and>
                  comp_url cpt = ''/docs/3.0/index.html'' \<and>
                  map_option ve_url (latestVersion cpt) = Some ''/docs/3.0/index.html''))"
  proof (intro impI allI)
    fix pb :: playbook and t1 t2 t3 t4 :: "string option"
    assume ord: "vc ''3.0'' ''2.0'' < 0 \<and> vc ''2.0'' ''1.5'' < 0 \<and> vc ''1.5'' ''1.0'' < 0"
      and st: "urls_htmlExtensionStyle pb = None"
    have c: "components (new_ContentCatalog pb) = Map.empty"
      "files (new_ContentCatalog pb) = Map.empty"
      "htmlUrlExtensionStyle (new_ContentCatalog pb) = ''default''"
      using st by (simp_all add: new_ContentCatalog_def files_def)
    show "\<exists>c' cpt. addComponentVersions vc cwd (new_ContentCatalog pb)
                    [(''docs'', ''1.0'', t1, None), (''docs'', ''2.0'', t2, None),
                     (''docs'', ''1.5'', t3, None), (''docs'', ''3.0'', t4, None)] = Inr c' \<and>
                  components c' ''docs'' = Some cpt \<and>
                  map ve_version (versions cpt) = [''3.0'', ''2.0'', ''1.5'', ''1.0''] \<and>
                  comp_url cpt = ''/docs/3.0/index.html'' \<and>
                  map_option ve_url (latestVersion cpt) = Some ''/docs/3.0/index.html''"
      using ord by (intro add_four_versions [OF assms _ _ _ c]) simp_all
  qed
  show "\<forall>c name' cpt v title spec.
            components c name' = Some cpt \<and> latest_first vc cpt \<and>
            v \<in> ve_version ` set (versions cpt) \<longrightarrow>
            isl (addComponentVersion vc cwd c name' v title spec) \<and>
            (\<forall>u. startPageUrl cwd c name' v spec = Inr u \<longrightarrow>
               addComponentVersion vc cwd c name' v title spec = Inl DuplicateVersion) \<and>
            (\<forall>e. startPageUrl cwd c name' v spec = Inl e \<longrightarrow>
               addComponentVersion vc cwd c name' v title spec = Inl e)"
  proof (intro allI impI)
    fix c :: catalog and name' cpt v title spec
    assume a: "components c name' = Some cpt \<and> latest_first vc cpt \<and>
            v \<in> ve_version ` set (versions cpt)"
    then have a1: "components c name' = Some cpt" and a2: "latest_first vc cpt"
      and a3: "v \<in> ve_version ` set (versions cpt)" by simp_all
    have "\<forall>e. startPageUrl cwd c name' v spec = Inl e \<longrightarrow>
               addComponentVersion vc cwd c name' v title spec = Inl e"
      by (simp add: addComponentVersion_def)
    then show "isl (addComponentVersion vc cwd c name' v title spec) \<and>
            (\<forall>u. startPageUrl cwd c name' v spec = Inr u \<longrightarrow>
               addComponentVersion vc cwd c name' v title spec = Inl DuplicateVersion) \<and>
            (\<forall>e. startPageUrl cwd c name' v spec = Inl e \<longrightarrow>
               addComponentVersion vc cwd c name' v title spec = Inl e)"
      using addComponentVersion_duplicate [OF a1 a2 a3] by simp
  qed
qed

theorem addComponentVersion_order_witness:
  "(\<exists>c' cpt. addComponentVersions versionCompare ''/work'' (new_ContentCatalog example_playbook)
        [(''docs'', ''1.0'', None, None), (''docs'', ''2.0'', None, None),
         (''docs'', ''1.5'', None, None), (''docs'', ''3.0'', None, None)] = Inr c' \<and>
      components c' ''docs'' = Some cpt \<and>
      map ve_version (versions cpt) = [''3.0'', ''2.0'', ''1.5'', ''1.0''] \<and>
      comp_url cpt = ''/docs/3.0/index.html'' \<and>
      map_option ve_url (latestVersion cpt) = Some ''/docs/3.0/index.html'') \<and>
   addComponentVersion versionCompare ''/work'' example_catalog ''docs'' ''2.0'' None None =
     Inl DuplicateVersion \<and>
   addComponentVersion versionCompare ''/work'' hidden_catalog ''docs'' ''2.0'' None
     (Some ''_hidden/start.adoc'') = Inl TypeError"
proof -
  have ord: "versionCompare ''3.0'' ''2.0'' < 0 \<and> versionCompare ''2.0'' ''1.5'' < 0 \<and>
      versionCompare ''1.5'' ''1.0'' < 0"
    by code_simp
  have st: "urls_htmlExtensionStyle example_playbook = None"
    by (simp add: example_playbook_def)
  have cp: "components example_catalog ''docs'' = Some docs_component"
    by code_simp
  have lf: "latest_first versionCompare docs_component"
    by (simp add: latest_first_def docs_component_def newest_first_def latestVersion_def)
  have mem: "''2.0'' \<in> ve_version ` set (versions docs_component)"
    by (simp add: docs_component_def)
  have "\<not> isl (startPageUrl ''/work'' example_catalog ''docs'' ''2.0'' None)"
    by code_simp
  then obtain u where u: "startPageUrl ''/work'' example_catalog ''docs'' ''2.0'' None = Inr u"
    by (cases "startPageUrl ''/work'' example_catalog ''docs'' ''2.0'' None") auto
  note T = addComponentVersion_order [OF versionCompare_order, of "''/work''"]
  note four = T [THEN conjunct2, THEN conjunct2, THEN conjunct2, THEN conjunct1, rule_format,
      OF ord st, of None None None None]
  note dup = T [THEN conjunct2, THEN conjunct2, THEN conjunct2, THEN conjunct2, rule_format,
      of example_catalog "''docs''" docs_component "''2.0''" None None, THEN conjunct2,
      THEN conjunct1, rule_format, OF _ u]
  have second: "addComponentVersion versionCompare ''/work'' example_catalog ''docs'' ''2.0'' None
      None = Inl DuplicateVersion"
    using cp lf mem by (intro dup) simp
  have cph: "components hidden_catalog ''docs'' = Some docs_component"
    by code_simp
  have "isl (startPageUrl ''/work'' hidden_catalog ''docs'' ''2.0'' (Some ''_hidden/start.adoc''))"
    "projl (startPageUrl ''/work'' hidden_catalog ''docs'' ''2.0'' (Some ''_hidden/start.adoc'')) =
      TypeError"
    by code_simp+
  then have e: "startPageUrl ''/work'' hidden_catalog ''docs'' ''2.0''
      (Some ''_hidden/start.adoc'') = Inl TypeError"
    by (cases "startPageUrl ''/work'' hidden_catalog ''docs'' ''2.0''
      (Some ''_hidden/start.adoc'')") auto
  note err = T [THEN conjunct2, THEN conjunct2, THEN conjunct2, THEN conjunct2, rule_format,
      of hidden_catalog "''docs''" docs_component "''2.0''" None "Some ''_hidden/start.adoc''",
      THEN conjunct2, THEN conjunct2, rule_format, OF _ e]
  have third: "addComponentVersion versionCompare ''/work'' hidden_catalog ''docs'' ''2.0'' None
      (Some ''_hidden/start.adoc'') = Inl TypeError"
    using cph lf mem by (intro err) simp
  show ?thesis using four second third by simp
qed

text \<open>The claim as stated fails on the kind of the error: the start page is resolved before
  the versions are compared, so adding version 2.0 of docs a second time with a start page
  spec that names no page fails with StartPageMissing, not with DuplicateVersion, and with a
  start page spec that names a page without a \<open>pub\<close> it fails with a TypeError.\<close>

theorem addComponentVersion_order_counterexample:
  "components example_catalog ''docs'' = Some docs_component \<and>
   map ve_version (versions docs_component) = [''2.0''] \<and>
   isl (addComponentVersion versionCompare ''/work'' example_catalog ''docs'' ''2.0'' None
          (Some ''missing.adoc'')) \<and>
   projl (addComponentVersion versionCompare ''/work'' example_catalog ''docs'' ''2.0'' None
          (Some ''missing.adoc'')) = StartPageMissing \<and>
   components hidden_catalog ''docs'' = Some docs_component \<and>
   map_option pub (getById hidden_catalog
      (intro_src\<lparr>relative := Some ''_hidden/start.adoc''\<rparr>)) = Some None \<and>
   isl (addComponentVersion versionCompare ''/work'' hidden_catalog ''docs'' ''2.0'' None
          (Some ''_hidden/start.adoc'')) \<and>
   projl (addComponentVersion versionCompare ''/work'' hidden_catalog ''docs'' ''2.0'' None
          (Some ''_hidden/start.adoc'')) = TypeError"
  by code_simp

section \<open>Properties of the site start page\<close>

lemma allocateSrc_family:
  assumes "allocateSrc f component' version' nav' = Inr (Some f')"
  shows "family (src f') \<noteq> Some ''alias''"
proof -
  obtain filepath where p: "path f = Some filepath"
    using assms by (cases "path f") (auto simp: allocateSrc_def)
  show ?thesis
    using assms unfolding allocateSrc_def Let_def p option.case
    by (auto simp: set_src_def split: option.splits if_splits)
qed

lemma addFile_stored:
  assumes "addFile cwd c f = Inr c'"
  shows "\<exists>f'. files c' = (files c)(generateId (src f) \<mapsto> f') \<and> src f' = src f \<and>
           rel f' = rel f \<and> components c' = components c \<and>
           htmlUrlExtensionStyle c' = htmlUrlExtensionStyle c"
proof -
  from addFile_result [OF assms] obtain af out' pub'
    where free: "files c (generateId (src f)) = None"
      and c': "c' = c\<lparr>file_table := file_table c @
                  [(generateId (src f),
                    File (path f) (file_mediaType f) (src f) out' pub' (rel f) (nav f))]\<rparr>"
    by (elim exE conjE) (rule that)
  let ?f' = "File (path f) (file_mediaType f) (src f) out' pub' (rel f) (nav f)"
  have "files c' = (files c)(generateId (src f) \<mapsto> ?f')"
    unfolding c' using free by (rule files_add)
  moreover have "src ?f' = src f" "rel ?f' = rel f" by simp_all
  moreover have "components c' = components c"
    "htmlUrlExtensionStyle c' = htmlUrlExtensionStyle c"
    unfolding c' by simp_all
  ultimately show ?thesis by blast
qed

lemma addFile_no_alias:
  assumes "\<forall>k g. files c k = Some g \<longrightarrow> family (src g) \<noteq> Some ''alias''"
    and "family (src f) \<noteq> Some ''alias''" "addFile cwd c f = Inr c'"
  shows "\<forall>k g. files c' k = Some g \<longrightarrow> family (src g) \<noteq> Some ''alias''"
proof -
  obtain f' where "files c' = (files c)(generateId (src f) \<mapsto> f')" "src f' = src f"
    using addFile_stored [OF assms(3)] by blast
  then show ?thesis using assms(1,2) by auto
qed

lemma addFiles_no_alias:
  "\<forall>k g. files c k = Some g \<longrightarrow> family (src g) \<noteq> Some ''alias'' \<Longrightarrow>
   addFiles cwd c component' version' nav' fs = Inr c' \<Longrightarrow>
   \<forall>k g. files c' k = Some g \<longrightarrow> family (src g) \<noteq> Some ''alias''"
proof (induction fs arbitrary: c)
  case Nil
  then show ?case by simp
next
  case (Cons f fs)
  show ?case
  proof (cases "allocateSrc f component' version' nav'")
    case (Inl e)
    then show ?thesis using Cons.prems(2) by simp
  next
    case (Inr r)
    show ?thesis
    proof (cases r)
      case None
      then show ?thesis using Cons Inr by simp
    next
      case (Some f')
      then obtain c1 where c1: "addFile cwd c f' = Inr c1"
        and rest: "addFiles cwd c1 component' version' nav' fs = Inr c'"
        using Cons.prems(2) Inr by (cases "addFile cwd c f'") auto
      have "family (src f') \<noteq> Some ''alias''"
        using allocateSrc_family Inr Some by blast
      then have "\<forall>k g. files c1 k = Some g \<longrightarrow> family (src g) \<noteq> Some ''alias''"
        using addFile_no_alias [OF Cons.prems(1) _ c1] by blast
      then show ?thesis using Cons.IH rest by blast
    qed
  qed
qed

lemma addComponentVersion_files:
  assumes "addComponentVersion vc cwd c name' v title spec = Inr c'"
  shows "files c' = files c"
proof -
  obtain u where u: "startPageUrl cwd c name' v spec = Inr u"
    using assms by (cases "startPageUrl cwd c name' v spec") (auto simp: addComponentVersion_def)
  show ?thesis
    using assms u unfolding addComponentVersion_def Let_def
    by (auto simp: files_def split: option.splits sum.splits if_splits member.splits)
qed

lemma classifyBundles_no_alias:
  "\<forall>k g. files c k = Some g \<longrightarrow> family (src g) \<noteq> Some ''alias'' \<Longrightarrow>
   classifyBundles vc cwd c aggregate = Inr c' \<Longrightarrow>
   \<forall>k g. files c' k = Some g \<longrightarrow> family (src g) \<noteq> Some ''alias''"
proof (induction aggregate arbitrary: c)
  case Nil
  then show ?case by simp
next
  case (Cons b bs)
  obtain c1 where c1: "addFiles cwd c (cv_name b) (cv_version b) (defined (cv_nav b))
      (cv_files b) = Inr c1"
    using Cons.prems(2)
    by (cases "addFiles cwd c (cv_name b) (cv_version b) (defined (cv_nav b)) (cv_files b)")
       auto
  obtain c2 where c2: "addComponentVersion vc cwd c1 (cv_name b) (cv_version b)
      (defined (cv_title b)) (defined (cv_start_page b)) = Inr c2"
    and rest: "classifyBundles vc cwd c2 bs = Inr c'"
    using Cons.prems(2) c1
    by (cases "addComponentVersion vc cwd c1 (cv_name b) (cv_version b)
      (defined (cv_title b)) (defined (cv_start_page b))") auto
  have "\<forall>k g. files c1 k = Some g \<longrightarrow> family (src g) \<noteq> Some ''alias''"
    using addFiles_no_alias [OF Cons.prems(1) c1] .
  then have "\<forall>k g. files c2 k = Some g \<longrightarrow> family (src g) \<noteq> Some ''alias''"
    using addComponentVersion_files [OF c2] by simp
  then show ?case using Cons.IH rest by blast
qed

lemma resolvePage_stored:
  assumes "resolvePage c spec ctx = Inr (Some r)"
  shows "\<exists>k. files c k = Some r"
  using assms unfolding resolvePage_def getById_def
  by (auto split: option.splits if_splits member.splits)

lemma registerSiteStartPage_alias:
  assumes inv: "\<forall>k g. files c k = Some g \<longrightarrow> family (src g) \<noteq> Some ''alias''"
    and reg: "registerSiteStartPage cwd start_page_id pb c = Inr c'"
  shows "\<forall>k g. files c' k = Some g \<longrightarrow> family (src g) = Some ''alias'' \<longrightarrow>
           (\<exists>r. rel g = Some r \<and> family (src r) \<noteq> Some ''alias'')"
proof (cases "truthy (site_startPage pb)")
  case False
  then have "c' = c" using reg by (simp add: registerSiteStartPage_def)
  then show ?thesis using inv by auto
next
  case True
  then obtain r where r: "resolvePage c (str (site_startPage pb)) empty_src = Inr (Some r)"
    using reg unfolding registerSiteStartPage_def Let_def
    by (auto split: sum.splits option.splits)
  let ?f = "File None None
       (start_page_id\<lparr>family := Some ''alias'', basename := Some ''index.adoc'',
          stem := Some ''index'', mediaType := Some ''text/asciidoc''\<rparr>)
       None None (Some r) None"
  have add: "addFile cwd c ?f = Inr c'"
    using reg True r unfolding registerSiteStartPage_def Let_def by simp
  obtain f' where f': "files c' = (files c)(generateId (src ?f) \<mapsto> f')" "rel f' = rel ?f"
    using addFile_stored [OF add] by blast
  have "family (src r) \<noteq> Some ''alias''"
    using resolvePage_stored [OF r] inv by blast
  then show ?thesis using f' inv by auto
qed

text \<open>
  C2. In every catalog that \<open>classifyContent\<close> builds, whatever the start page ID and the
  version order, \<open>getSiteStartPage\<close> never returns a file of the family alias. When the entry
  it finds (under the start page ID, or else under that ID with the family alias) is an
  alias, it returns the \<open>rel\<close> of that entry, and this file is not an alias.
\<close>

theorem getSiteStartPage_never_alias:
  assumes "classifyContent vc cwd start_page_id pb aggregate = Inr c"
  shows "(\<forall>f. getSiteStartPage start_page_id c = Some f \<longrightarrow>
            family (src f) \<noteq> Some ''alias'') \<and>
         (\<forall>pg. (getById c start_page_id = Some pg \<or>
                (getById c start_page_id = None \<and>
                 getById c (start_page_id\<lparr>family := Some ''alias''\<rparr>) = Some pg)) \<and>
               family (src pg) = Some ''alias'' \<longrightarrow>
            (\<exists>r. rel pg = Some r \<and> getSiteStartPage start_page_id c = Some r \<and>
                 family (src r) \<noteq> Some ''alias''))"
proof -
  obtain c0 where c0: "classifyBundles vc cwd (new_ContentCatalog pb) aggregate = Inr c0"
    and reg: "registerSiteStartPage cwd start_page_id pb c0 = Inr c"
    using assms unfolding classifyContent_def
    by (cases "classifyBundles vc cwd (new_ContentCatalog pb) aggregate") auto
  have "\<forall>k g. files (new_ContentCatalog pb) k = Some g \<longrightarrow> family (src g) \<noteq> Some ''alias''"
    by (simp add: files_new)
  then have "\<forall>k g. files c0 k = Some g \<longrightarrow> family (src g) \<noteq> Some ''alias''"
    using classifyBundles_no_alias c0 by blast
  then have inv: "\<forall>k g. files c k = Some g \<longrightarrow> family (src g) = Some ''alias'' \<longrightarrow>
           (\<exists>r. rel g = Some r \<and> family (src r) \<noteq> Some ''alias'')"
    using registerSiteStartPage_alias reg by blast
  have found: "\<And>s pg. getById c s = Some pg \<Longrightarrow> family (src pg) = Some ''alias'' \<Longrightarrow>
      \<exists>r. rel pg = Some r \<and> family (src r) \<noteq> Some ''alias''"
    using inv unfolding getById_def by blast
  show ?thesis
  proof (intro conjI allI impI)
    fix f
    assume g: "getSiteStartPage start_page_id c = Some f"
    show "family (src f) \<noteq> Some ''alias''"
    proof (cases "getById c start_page_id")
      case None
      then obtain pg where pg: "getById c (start_page_id\<lparr>family := Some ''alias''\<rparr>) = Some pg"
        using g by (cases "getById c (start_page_id\<lparr>family := Some ''alias''\<rparr>)")
          (auto simp: getSiteStartPage_def)
      then show ?thesis
        using g None found [OF pg] by (auto simp: getSiteStartPage_def split: if_splits)
    next
      case (Some pg)
      then show ?thesis
        using g found [OF Some] by (auto simp: getSiteStartPage_def split: if_splits)
    qed
  next
    fix pg
    assume a: "(getById c start_page_id = Some pg \<or>
                (getById c start_page_id = None \<and>
                 getById c (start_page_id\<lparr>family := Some ''alias''\<rparr>) = Some pg)) \<and>
               family (src pg) = Some ''alias''"
    then obtain s where s: "getById c s = Some pg" by blast
    obtain r where r: "rel pg = Some r" "family (src r) \<noteq> Some ''alias''"
      using found [OF s] a by blast
    have "getSiteStartPage start_page_id c = Some r"
      using a r(1) by (auto simp: getSiteStartPage_def)
    then show "\<exists>r. rel pg = Some r \<and> getSiteStartPage start_page_id c = Some r \<and>
                 family (src r) \<noteq> Some ''alias''"
      using r by blast
  qed
qed

theorem getSiteStartPage_never_alias_witness:
  "classifyContent versionCompare ''/work'' example_start_page_id example_playbook
     example_aggregate = Inr example_catalog \<and>
   map_option (\<lambda>pg. family (src pg))
     (getById example_catalog (example_start_page_id\<lparr>family := Some ''alias''\<rparr>)) =
     Some (Some ''alias'') \<and>
   getSiteStartPage example_start_page_id example_catalog = Some intro_page \<and>
   family (src intro_page) \<noteq> Some ''alias''"
proof -
  have "\<not> isl (classifyContent versionCompare ''/work'' example_start_page_id example_playbook
     example_aggregate)"
    by code_simp
  then have built: "classifyContent versionCompare ''/work'' example_start_page_id
      example_playbook example_aggregate = Inr example_catalog"
    by (simp add: example_catalog_def)
  have stored: "map_option (\<lambda>pg. family (src pg))
     (getById example_catalog (example_start_page_id\<lparr>family := Some ''alias''\<rparr>)) =
     Some (Some ''alias'')"
    by code_simp
  have start: "getSiteStartPage example_start_page_id example_catalog = Some intro_page"
    by code_simp
  have "family (src intro_page) \<noteq> Some ''alias''"
    using getSiteStartPage_never_alias [OF built] start by blast
  then show ?thesis using built stored start by simp
qed

section \<open>Properties of \<open>buildAggregate\<close>\<close>


















section \<open>Properties of the page composer\<close>

lemma insert_by_length: "length (insert_by cmp x xs) = Suc (length xs)"
  by (induction xs) auto

lemma sort_by_length: "length (sort_by cmp xs) = length xs"
proof -
  have "length (foldl (\<lambda>sorted x. insert_by cmp x sorted) acc xs) = length acc + length xs"
    for acc
    by (induction xs arbitrary: acc) (auto simp: insert_by_length)
  then show ?thesis by (simp add: sort_by_def)
qed

lemma getPageVersions_Inr:
  "(\<exists>vs. getPageVersions vc s cpt c = Inr vs) =
     (length (versions cpt) > 1 \<longrightarrow>
        (\<forall>page \<in> set (findBy c (pageIdSansVersion s)). pub page \<noteq> None))"
  by (auto simp: getPageVersions_def Let_def list_ex_iff)

lemma getPageVersions_Inl: "getPageVersions vc s cpt c = Inl e \<Longrightarrow> e = TypeError"
  by (auto simp: getPageVersions_def Let_def split: if_splits)

lemma getPageVersions_nonempty:
  assumes "getPageVersions vc s cpt c = Inr (Some vs)"
  shows "vs \<noteq> []"
proof -
  have "length vs = length (versions cpt) \<and> length (versions cpt) > 1"
    using assms by (auto simp: getPageVersions_def Let_def sort_by_length split: if_splits)
  then show ?thesis by auto
qed

text \<open>The step of \<open>buildPageUiModel\<close> that makes the canonical URL never fails after
  \<open>getPageVersions\<close> has returned.\<close>

lemma canonicalUrl_Inr:
  assumes "getPageVersions vc s cpt c = Inr versions'"
  shows "\<exists>canonicalUrl.
           (if truthy su
            then (case versions' of
                    None \<Rightarrow> Inr (Some (str su @ u))
                  | Some [] \<Rightarrow> Inl TypeError
                  | Some (first # rest) \<Rightarrow> Inr (Some (str su @ str (url_of first))))
            else Inr None) = Inr canonicalUrl"
proof (cases versions')
  case None
  then show ?thesis by simp
next
  case (Some vs)
  then have "vs \<noteq> []" using assms getPageVersions_nonempty by blast
  then obtain first rest where "vs = first # rest" by (cases vs) auto
  then show ?thesis using Some by simp
qed

lemma buildPageUiModel_404:
  assumes "\<not> truthy (component (src f))" "stem (src f) = Some ''404''"
  shows "buildPageUiModel vc f doc c menus site =
           Inr \<lparr>pm_layout = ''404'', pm_title = doc_title doc, pm_details = None\<rparr>"
  using assms by (simp add: buildPageUiModel_def str_def)

lemma buildPageUiModel_other:
  assumes "truthy (component (src f)) \<or> stem (src f) \<noteq> Some ''404''"
  shows "(\<exists>pg. buildPageUiModel vc f doc c menus site = Inr pg) =
           (pub f \<noteq> None \<and>
            (\<exists>cpt. getComponent c (component (src f)) = Own cpt \<and>
               (length (versions cpt) > 1 \<longrightarrow>
                  (\<forall>page \<in> set (findBy c (pageIdSansVersion (src f))). pub page \<noteq> None))))"
    and "buildPageUiModel vc f doc c menus site = Inr pg \<Longrightarrow>
         pm_layout pg = (if truthy (doc_attributes doc ''page-layout'')
                         then str (doc_attributes doc ''page-layout'')
                         else site_ui_defaultLayout site)"
    and "buildPageUiModel vc f doc c menus site = Inl e \<Longrightarrow> e = TypeError"
proof -
  define is404 where "is404 = (\<not> truthy (component (src f)) \<and> stem (src f) = Some ''404'')"
  have not404: "is404 = False"
    using assms unfolding is404_def by blast
  note build = buildPageUiModel_def [of vc f doc c menus site,
      unfolded Let_def is404_def [symmetric] not404 if_False]
  show "(\<exists>pg. buildPageUiModel vc f doc c menus site = Inr pg) =
           (pub f \<noteq> None \<and>
            (\<exists>cpt. getComponent c (component (src f)) = Own cpt \<and>
               (length (versions cpt) > 1 \<longrightarrow>
                  (\<forall>page \<in> set (findBy c (pageIdSansVersion (src f))). pub page \<noteq> None))))"
  proof (cases "pub f")
    case None
    then show ?thesis by (simp add: build)
  next
    case (Some pb)
    show ?thesis
    proof (cases "getComponent c (component (src f))")
      case Inherited
      then show ?thesis using Some by (simp add: build)
    next
      case Missing
      then show ?thesis using Some by (simp add: build)
    next
      case (Own cpt)
      show ?thesis
      proof (cases "getPageVersions vc (src f) cpt c")
        case (Inl e)
        then have "\<not> (\<exists>vs. getPageVersions vc (src f) cpt c = Inr vs)" by simp
        then have "\<not> (length (versions cpt) > 1 \<longrightarrow>
            (\<forall>page \<in> set (findBy c (pageIdSansVersion (src f))). pub page \<noteq> None))"
          unfolding getPageVersions_Inr .
        moreover have "buildPageUiModel vc f doc c menus site = Inl e"
          using Some Own Inl by (simp add: build)
        ultimately show ?thesis using Some Own by simp
      next
        case (Inr versions')
        then have ok: "length (versions cpt) > 1 \<longrightarrow>
            (\<forall>page \<in> set (findBy c (pageIdSansVersion (src f))). pub page \<noteq> None)"
          using getPageVersions_Inr [of vc "src f" cpt c] by blast
        obtain canonicalUrl where cu:
          "(if truthy (site_url site)
            then (case versions' of
                    None \<Rightarrow> Inr (Some (str (site_url site) @ url pb))
                  | Some [] \<Rightarrow> Inl TypeError
                  | Some (first # rest) \<Rightarrow>
                      Inr (Some (str (site_url site) @ str (url_of first))))
            else Inr None) = Inr canonicalUrl"
          using canonicalUrl_Inr [OF Inr] by blast
        have "\<exists>pg. buildPageUiModel vc f doc c menus site = Inr pg"
          unfolding build Some Own Inr option.case member.case sum.case cu by blast
        then show ?thesis using Some Own ok by simp
      qed
    qed
  qed
  show "buildPageUiModel vc f doc c menus site = Inr pg \<Longrightarrow>
         pm_layout pg = (if truthy (doc_attributes doc ''page-layout'')
                         then str (doc_attributes doc ''page-layout'')
                         else site_ui_defaultLayout site)"
    unfolding build
    by (auto split: option.splits member.splits sum.splits if_splits list.splits)
  show "buildPageUiModel vc f doc c menus site = Inl e \<Longrightarrow> e = TypeError"
    unfolding build
    by (auto dest: getPageVersions_Inl
        split: option.splits member.splits sum.splits if_splits list.splits)
qed

lemma buildUiModel_cases:
  "buildUiModel vc f doc c menus site =
     (case buildPageUiModel vc f doc c menus site of
        Inl e \<Rightarrow> Inl e
      | Inr page \<Rightarrow>
          (case pub f of
             None \<Rightarrow> Inl TypeError
           | Some pb \<Rightarrow>
               (case pub_rootPath pb of
                  None \<Rightarrow> Inl TypeError
                | Some r \<Rightarrow>
                    Inr \<lparr>um_page = page, um_site = site, um_siteRootPath = Some r,
                         um_uiRootPath =
                           (let joined = join_with ''/''
                                  (filter (\<lambda>a. a \<noteq> []) [r, site_ui_url site])
                            in if joined = [] then ''.'' else path_normalize joined)\<rparr>)))"
  unfolding buildUiModel_def path_join_def
  by (auto simp: Let_def split: sum.splits option.splits)


lemma buildUiModel_page:
  assumes "buildUiModel vc f doc c menus site = Inr uiModel"
  shows "buildPageUiModel vc f doc c menus site = Inr (um_page uiModel)"
    and "um_site uiModel = site"
  using assms unfolding buildUiModel_cases
  by (auto split: sum.splits option.splits)

lemma buildUiModel_Inl:
  assumes "buildUiModel vc f doc c menus site = Inl e"
  shows "e = TypeError"
proof (cases "buildPageUiModel vc f doc c menus site")
  case (Inl e')
  then have e: "e = e'" using assms unfolding buildUiModel_cases by simp
  show ?thesis
  proof (cases "\<not> truthy (component (src f)) \<and> stem (src f) = Some ''404''")
    case True
    then show ?thesis using Inl buildPageUiModel_404 [of f vc doc c menus site] by simp
  next
    case False
    then have "truthy (component (src f)) \<or> stem (src f) \<noteq> Some ''404''" by blast
    then show ?thesis using buildPageUiModel_other(3) Inl e by blast
  qed
next
  case (Inr page)
  then show ?thesis using assms unfolding buildUiModel_cases
    by (auto split: option.splits)
qed

lemma buildUiModel_Inr:
  "(\<exists>uiModel. buildUiModel vc f doc c menus site = Inr uiModel) =
     ((\<exists>pb r. pub f = Some pb \<and> pub_rootPath pb = Some r) \<and>
      ((\<not> truthy (component (src f)) \<and> stem (src f) = Some ''404'') \<or>
       (\<exists>cpt. getComponent c (component (src f)) = Own cpt \<and>
          (length (versions cpt) > 1 \<longrightarrow>
             (\<forall>page \<in> set (findBy c (pageIdSansVersion (src f))). pub page \<noteq> None)))))"
proof -
  have root: "(\<exists>uiModel. buildUiModel vc f doc c menus site = Inr uiModel) =
      ((\<exists>pg. buildPageUiModel vc f doc c menus site = Inr pg) \<and>
       (\<exists>pb r. pub f = Some pb \<and> pub_rootPath pb = Some r))"
    unfolding buildUiModel_cases by (auto split: sum.splits option.splits)
  show ?thesis
  proof (cases "\<not> truthy (component (src f)) \<and> stem (src f) = Some ''404''")
    case True
    then have "\<exists>pg. buildPageUiModel vc f doc c menus site = Inr pg"
      using buildPageUiModel_404 [of f vc doc c menus site] by simp
    then show ?thesis unfolding root using True by blast
  next
    case False
    then have n: "truthy (component (src f)) \<or> stem (src f) \<noteq> Some ''404''" by blast
    show ?thesis
      unfolding root buildPageUiModel_other(1) [OF n] using False by blast
  qed
qed

text \<open>
  C7 (as amended). \<open>composePage\<close> first builds the UI model. It builds it when the file has
  a \<open>pub\<close> with a root path and, unless the file is the page without a component whose
  stem is 404, the component of the file is in the catalog and, if that component has more
  than one version, every page found for the list of the versions of the page has a \<open>pub\<close>;
  in every other case it throws a TypeError and no layout is looked at. When the model is
  built: the page without a component whose stem is 404 asks for the layout \<open>404\<close>; every
  other page asks for its \<open>page-layout\<close> attribute when that is set to a non-empty value,
  and for the default layout of the site otherwise. When the layout asked for has a
  template, that template is applied. When it has none and is not \<open>404\<close>, the template of
  the default layout is applied. Composing fails with LayoutNotFound when the layout asked
  for has no template and either is the default layout or the default layout has no
  template either; it fails at once, whether or not the default layout has a template,
  when the layout asked for is \<open>404\<close> and has none.
\<close>

theorem composePage_layout:
  "(\<forall>e. buildUiModel vc f doc c menus site = Inl e \<longrightarrow>
      e = TypeError \<and> composePage layouts vc site f doc c menus = Inl TypeError) \<and>
   ((\<exists>uiModel. buildUiModel vc f doc c menus site = Inr uiModel) =
      ((\<exists>pb r. pub f = Some pb \<and> pub_rootPath pb = Some r) \<and>
       ((\<not> truthy (component (src f)) \<and> stem (src f) = Some ''404'') \<or>
        (\<exists>cpt. getComponent c (component (src f)) = Own cpt \<and>
           (length (versions cpt) > 1 \<longrightarrow>
              (\<forall>page \<in> set (findBy c (pageIdSansVersion (src f))). pub page \<noteq> None)))))) \<and>
   (\<forall>uiModel. buildUiModel vc f doc c menus site = Inr uiModel \<longrightarrow>
      (let requested = pm_layout (um_page uiModel); d = site_ui_defaultLayout site
       in (\<not> truthy (component (src f)) \<and> stem (src f) = Some ''404'' \<longrightarrow>
             requested = ''404'') \<and>
          (truthy (component (src f)) \<or> stem (src f) \<noteq> Some ''404'' \<longrightarrow>
             requested = (if truthy (doc_attributes doc ''page-layout'')
                          then str (doc_attributes doc ''page-layout'') else d)) \<and>
          (\<forall>t. layouts requested = Some t \<longrightarrow>
             composePage layouts vc site f doc c menus = Inr (t uiModel)) \<and>
          (\<forall>t. layouts requested = None \<and> requested \<noteq> ''404'' \<and> requested \<noteq> d \<and>
               layouts d = Some t \<longrightarrow>
             composePage layouts vc site f doc c menus = Inr (t uiModel)) \<and>
          (layouts requested = None \<and> (requested = d \<or> layouts d = None) \<longrightarrow>
             (\<exists>m. composePage layouts vc site f doc c menus = Inl (LayoutNotFound m))) \<and>
          (layouts requested = None \<and> requested = ''404'' \<longrightarrow>
             composePage layouts vc site f doc c menus = Inl (LayoutNotFound Missing_404))))"
proof (intro conjI allI impI)
  fix e
  assume a: "buildUiModel vc f doc c menus site = Inl e"
  then show "e = TypeError" by (rule buildUiModel_Inl)
  then show "composePage layouts vc site f doc c menus = Inl TypeError"
    using a by (simp add: composePage_def)
next
  show "(\<exists>uiModel. buildUiModel vc f doc c menus site = Inr uiModel) =
      ((\<exists>pb r. pub f = Some pb \<and> pub_rootPath pb = Some r) \<and>
       ((\<not> truthy (component (src f)) \<and> stem (src f) = Some ''404'') \<or>
        (\<exists>cpt. getComponent c (component (src f)) = Own cpt \<and>
           (length (versions cpt) > 1 \<longrightarrow>
              (\<forall>page \<in> set (findBy c (pageIdSansVersion (src f))). pub page \<noteq> None)))))"
    by (rule buildUiModel_Inr)
next
  fix uiModel
  assume a: "buildUiModel vc f doc c menus site = Inr uiModel"
  have pg: "buildPageUiModel vc f doc c menus site = Inr (um_page uiModel)"
    and st: "um_site uiModel = site"
    using buildUiModel_page [OF a] by blast+
  define requested where "requested = pm_layout (um_page uiModel)"
  define d where "d = site_ui_defaultLayout site"
  have r404: "\<not> truthy (component (src f)) \<and> stem (src f) = Some ''404'' \<longrightarrow>
      requested = ''404''"
    using pg buildPageUiModel_404 [of f vc doc c menus site] unfolding requested_def by auto
  have rother: "truthy (component (src f)) \<or> stem (src f) \<noteq> Some ''404'' \<longrightarrow>
      requested = (if truthy (doc_attributes doc ''page-layout'')
                   then str (doc_attributes doc ''page-layout'') else d)"
    using buildPageUiModel_other(2) [OF _ pg] unfolding requested_def d_def by blast
  have cp: "composePage layouts vc site f doc c menus =
      (case layouts requested of
         Some template \<Rightarrow> Inr (template uiModel)
       | None \<Rightarrow>
           if requested = ''404'' then Inl (LayoutNotFound Missing_404)
           else if d = requested then Inl (LayoutNotFound Missing_default)
           else case layouts d of
                  None \<Rightarrow> Inl (LayoutNotFound Missing_layout_and_fallback)
                | Some template \<Rightarrow> Inr (template uiModel))"
    using a st
    by (cases "layouts (pm_layout (um_page uiModel))")
       (simp_all add: composePage_def Let_def requested_def d_def)
  have t1: "\<forall>t. layouts requested = Some t \<longrightarrow>
      composePage layouts vc site f doc c menus = Inr (t uiModel)"
    by (simp add: cp)
  have t2: "\<forall>t. layouts requested = None \<and> requested \<noteq> ''404'' \<and> requested \<noteq> d \<and>
      layouts d = Some t \<longrightarrow> composePage layouts vc site f doc c menus = Inr (t uiModel)"
    by (auto simp: cp)
  have t3: "layouts requested = None \<and> (requested = d \<or> layouts d = None) \<longrightarrow>
      (\<exists>m. composePage layouts vc site f doc c menus = Inl (LayoutNotFound m))"
    by (auto simp: cp)
  have t4: "layouts requested = None \<and> requested = ''404'' \<longrightarrow>
      composePage layouts vc site f doc c menus = Inl (LayoutNotFound Missing_404)"
    by (simp add: cp)
  show "let requested = pm_layout (um_page uiModel); d = site_ui_defaultLayout site
       in (\<not> truthy (component (src f)) \<and> stem (src f) = Some ''404'' \<longrightarrow>
             requested = ''404'') \<and>
          (truthy (component (src f)) \<or> stem (src f) \<noteq> Some ''404'' \<longrightarrow>
             requested = (if truthy (doc_attributes doc ''page-layout'')
                          then str (doc_attributes doc ''page-layout'') else d)) \<and>
          (\<forall>t. layouts requested = Some t \<longrightarrow>
             composePage layouts vc site f doc c menus = Inr (t uiModel)) \<and>
          (\<forall>t. layouts requested = None \<and> requested \<noteq> ''404'' \<and> requested \<noteq> d \<and>
               layouts d = Some t \<longrightarrow>
             composePage layouts vc site f doc c menus = Inr (t uiModel)) \<and>
          (layouts requested = None \<and> (requested = d \<or> layouts d = None) \<longrightarrow>
             (\<exists>m. composePage layouts vc site f doc c menus = Inl (LayoutNotFound m))) \<and>
          (layouts requested = None \<and> requested = ''404'' \<longrightarrow>
             composePage layouts vc site f doc c menus = Inl (LayoutNotFound Missing_404))"
    unfolding Let_def requested_def [symmetric] d_def [symmetric]
    by (intro conjI r404 rother t1 t2 t3 t4)
qed

theorem composePage_layout_witness:
  "composePage default_only compare_versions example_site intro_page
     (example_document [''page-layout'' \<mapsto> ''special'']) two_versions_catalog example_menus =
     Inr ''D:special'' \<and>
   composePage default_only compare_versions example_site intro_unpublished
     (example_document Map.empty) two_versions_catalog example_menus = Inl TypeError \<and>
   composePage default_only compare_versions example_site intro_page
     (example_document [''page-layout'' \<mapsto> ''404'']) two_versions_catalog example_menus =
     Inl (LayoutNotFound Missing_404) \<and>
   (\<exists>m. composePage Map.empty compare_versions example_site intro_page
     (example_document Map.empty) two_versions_catalog example_menus =
     Inl (LayoutNotFound m)) \<and>
   composePage three_layouts compare_versions example_site page_404
     (example_document [''page-layout'' \<mapsto> ''special'']) two_versions_catalog example_menus =
     Inr ''N:404'' \<and>
   (\<exists>uiModel. buildUiModel compare_versions intro_page
      (example_document [''page-layout'' \<mapsto> ''special'']) two_versions_catalog example_menus
      example_site = Inr uiModel)"
proof -
  let ?special = "example_document [''page-layout'' \<mapsto> ''special'']"
  let ?nf = "example_document [''page-layout'' \<mapsto> ''404'']"
  let ?plain = "example_document Map.empty"
  let ?build = "\<lambda>f doc. buildUiModel compare_versions f doc two_versions_catalog example_menus
      example_site"
  have d: "site_ui_defaultLayout example_site = ''default''"
    by (simp add: example_site_def)
  have "\<not> isl (?build intro_page ?special)" by code_simp
  then have b1: "?build intro_page ?special = Inr (projr (?build intro_page ?special))"
    by simp
  have r1: "pm_layout (um_page (projr (?build intro_page ?special))) = ''special''"
    by code_simp
  have first: "composePage default_only compare_versions example_site intro_page ?special
      two_versions_catalog example_menus = Inr ''D:special''"
    using composePage_layout [of compare_versions intro_page ?special two_versions_catalog
        example_menus example_site default_only, THEN conjunct2, THEN conjunct2, rule_format,
        OF b1]
    by (simp add: Let_def r1 d default_only_def)
  have "isl (?build intro_unpublished ?plain)" by code_simp
  then have b2: "?build intro_unpublished ?plain = Inl (projl (?build intro_unpublished ?plain))"
    by simp
  have second: "composePage default_only compare_versions example_site intro_unpublished ?plain
      two_versions_catalog example_menus = Inl TypeError"
    using composePage_layout [of compare_versions intro_unpublished ?plain two_versions_catalog
        example_menus example_site default_only, THEN conjunct1, rule_format, OF b2]
    by simp
  have "\<not> isl (?build intro_page ?nf)" by code_simp
  then have b3: "?build intro_page ?nf = Inr (projr (?build intro_page ?nf))"
    by simp
  have r3: "pm_layout (um_page (projr (?build intro_page ?nf))) = ''404''"
    by code_simp
  have third: "composePage default_only compare_versions example_site intro_page ?nf
      two_versions_catalog example_menus = Inl (LayoutNotFound Missing_404)"
    using composePage_layout [of compare_versions intro_page ?nf two_versions_catalog
        example_menus example_site default_only, THEN conjunct2, THEN conjunct2, rule_format,
        OF b3]
    by (simp add: Let_def r3 d default_only_def)
  have "\<not> isl (?build intro_page ?plain)" by code_simp
  then have b4: "?build intro_page ?plain = Inr (projr (?build intro_page ?plain))"
    by simp
  have r4: "pm_layout (um_page (projr (?build intro_page ?plain))) = ''default''"
    by code_simp
  have fourth: "\<exists>m. composePage Map.empty compare_versions example_site intro_page ?plain
      two_versions_catalog example_menus = Inl (LayoutNotFound m)"
    using composePage_layout [of compare_versions intro_page ?plain two_versions_catalog
        example_menus example_site Map.empty, THEN conjunct2, THEN conjunct2, rule_format,
        OF b4]
    by (simp add: Let_def r4 d)
  have "\<not> isl (?build page_404 ?special)" by code_simp
  then have b5: "?build page_404 ?special = Inr (projr (?build page_404 ?special))"
    by simp
  have is404: "\<not> truthy (component (src page_404)) \<and> stem (src page_404) = Some ''404''"
    by (simp add: page_404_def empty_src_def truthy_def)
  have fifth: "composePage three_layouts compare_versions example_site page_404 ?special
      two_versions_catalog example_menus = Inr ''N:404''"
    using composePage_layout [of compare_versions page_404 ?special two_versions_catalog
        example_menus example_site three_layouts, THEN conjunct2, THEN conjunct2, rule_format,
        OF b5] is404
    by (simp add: Let_def three_layouts_def)
  have pb: "pub intro_page = Some \<lparr>url = ''/docs/2.0/intro.html'', pub_moduleRootPath = Some ''.'',
      pub_rootPath = Some ''../..''\<rparr>"
    by (simp add: intro_page_def)
  have "length (versions (the (components two_versions_catalog ''docs''))) = 2"
    "getComponent two_versions_catalog (component (src intro_page)) =
       Own (the (components two_versions_catalog ''docs''))"
    "\<forall>page \<in> set (findBy two_versions_catalog (pageIdSansVersion (src intro_page))).
       pub page \<noteq> None"
    by code_simp+
  then have built: "\<exists>uiModel. ?build intro_page ?special = Inr uiModel"
    using composePage_layout [of compare_versions intro_page ?special two_versions_catalog
        example_menus example_site default_only, THEN conjunct2, THEN conjunct1] pb
    by simp
  show ?thesis
    using first second third fourth fifth built by blast
qed

text \<open>The claim as stated fails on the 404 page: its \<open>page-layout\<close> attribute is set and
  has a template, and the page is still composed with the layout \<open>404\<close>. It also fails on
  a page whose \<open>page-layout\<close> attribute is set to the empty string: the page is composed
  with the default layout. And a page file without a \<open>pub\<close> is given no layout at all.\<close>

theorem composePage_layout_counterexample:
  "doc_attributes (example_document [''page-layout'' \<mapsto> ''special'']) ''page-layout'' =
     Some ''special'' \<and>
   composePage three_layouts compare_versions example_site page_404
     (example_document [''page-layout'' \<mapsto> ''special'']) example_catalog example_menus =
     Inr ''N:404'' \<and>
   doc_attributes (example_document [''page-layout'' \<mapsto> []]) ''page-layout'' = Some [] \<and>
   composePage three_layouts compare_versions example_site intro_page
     (example_document [''page-layout'' \<mapsto> []]) example_catalog example_menus =
     Inr ''D:default'' \<and>
   composePage three_layouts compare_versions example_site intro_unpublished
     (example_document [''page-layout'' \<mapsto> ''special'']) example_catalog example_menus =
     Inl TypeError"
  by code_simp

end
